theory Spec2Isabelle
  imports Complex_Main "HOL-Library.Word" "HOL-Library.AList"
begin

unbundle bit_operations_syntax

section \<open>JavaScript values\<close>

text \<open>
  A JavaScript \<open>number\<close> is an IEEE-754 binary64 value. Every finite binary64 value is a
  (rational) real, so a number is \<open>NaN\<close>, one of the two infinities, or \<open>Fin x\<close> for a
  real \<open>x\<close>. The two zeros are both \<open>Fin 0\<close>: they are equal under every comparison the
  program makes (strict equality and the order comparisons).
\<close>

datatype jsnum = NaN | NegInf | Fin real | PosInf

text \<open>\<open>a < b\<close> on numbers: false as soon as one side is \<open>NaN\<close>.\<close>

fun num_lt :: "jsnum \<Rightarrow> jsnum \<Rightarrow> bool" where
  "num_lt NaN _ = False"
| "num_lt _ NaN = False"
| "num_lt NegInf NegInf = False"
| "num_lt NegInf _ = True"
| "num_lt (Fin x) NegInf = False"
| "num_lt (Fin x) (Fin y) = (x < y)"
| "num_lt (Fin x) PosInf = True"
| "num_lt PosInf _ = False"

text \<open>\<open>a === b\<close> on numbers: \<open>NaN\<close> is equal to nothing, itself included.\<close>

fun num_eq :: "jsnum \<Rightarrow> jsnum \<Rightarrow> bool" where
  "num_eq NaN _ = False"
| "num_eq _ NaN = False"
| "num_eq a b = (a = b)"

definition num_le :: "jsnum \<Rightarrow> jsnum \<Rightarrow> bool" where
  "num_le a b = (num_lt a b \<or> num_eq a b)"

subsection \<open>Rounding to binary64\<close>

definition pow2 :: "int \<Rightarrow> real" where
  "pow2 k = (if 0 \<le> k then 2 ^ nat k else 1 / 2 ^ nat (- k))"

fun bitlen :: "nat \<Rightarrow> nat" where
  "bitlen n = (if n = 0 then 0 else Suc (bitlen (n div 2)))"

declare bitlen.simps [simp del]

text \<open>The exponent \<open>e\<close> with \<open>2^e \<le> a < 2^(e+1)\<close>, for \<open>a > 0\<close>.\<close>

definition ilog2 :: "real \<Rightarrow> int" where
  "ilog2 a =
     (if 1 \<le> a then int (bitlen (nat \<lfloor>a\<rfloor>)) - 1
      else (let j = int (bitlen (nat \<lfloor>1 / a\<rfloor>)) - 1
            in if a = pow2 (- j) then - j else - j - 1))"

text \<open>Round to the nearest integer, ties to even.\<close>

definition round_half_even :: "real \<Rightarrow> int" where
  "round_half_even n =
     (let f = \<lfloor>n\<rfloor>; d = n - of_int f
      in if d < 1 / 2 then f else if 1 / 2 < d then f + 1
         else if even f then f else f + 1)"

text \<open>
  The binary64 value nearest to a real (round to nearest, ties to even; 53 significant
  bits, least exponent \<open>-1022\<close>, overflow to infinity from \<open>2^1024\<close>).
\<close>

definition fround :: "real \<Rightarrow> jsnum" where
  "fround x =
     (if x = 0 then Fin 0
      else (let a = \<bar>x\<bar>;
                e = max (ilog2 a) (- 1022);
                ulp = pow2 (e - 52);
                r = of_int (round_half_even (a / ulp)) * ulp
            in if pow2 1024 \<le> r then (if x < 0 then NegInf else PosInf)
               else Fin (if x < 0 then - r else r)))"

text \<open>Binary64 multiplication and addition.\<close>

fun fmul :: "jsnum \<Rightarrow> jsnum \<Rightarrow> jsnum" where
  "fmul NaN _ = NaN"
| "fmul _ NaN = NaN"
| "fmul (Fin x) (Fin y) = fround (x * y)"
| "fmul (Fin x) PosInf = (if x = 0 then NaN else if x < 0 then NegInf else PosInf)"
| "fmul (Fin x) NegInf = (if x = 0 then NaN else if x < 0 then PosInf else NegInf)"
| "fmul PosInf (Fin y) = (if y = 0 then NaN else if y < 0 then NegInf else PosInf)"
| "fmul NegInf (Fin y) = (if y = 0 then NaN else if y < 0 then PosInf else NegInf)"
| "fmul PosInf PosInf = PosInf"
| "fmul PosInf NegInf = NegInf"
| "fmul NegInf PosInf = NegInf"
| "fmul NegInf NegInf = PosInf"

fun fadd :: "jsnum \<Rightarrow> jsnum \<Rightarrow> jsnum" where
  "fadd NaN _ = NaN"
| "fadd _ NaN = NaN"
| "fadd (Fin x) (Fin y) = fround (x + y)"
| "fadd (Fin x) PosInf = PosInf"
| "fadd (Fin x) NegInf = NegInf"
| "fadd PosInf (Fin y) = PosInf"
| "fadd NegInf (Fin y) = NegInf"
| "fadd PosInf PosInf = PosInf"
| "fadd PosInf NegInf = NaN"
| "fadd NegInf PosInf = NaN"
| "fadd NegInf NegInf = NegInf"

text \<open>
  A JavaScript string value is a sequence of 16-bit code units. The names and texts the
  program itself builds are ASCII and are kept as \<open>string\<close>; \<open>js_string\<close> is such a
  text as a string value.
\<close>

type_synonym jsstring = "16 word list"

definition js_string :: "string \<Rightarrow> jsstring" where
  "js_string s = map (\<lambda>c. of_nat (of_char c)) s"

text \<open>
  The values the program handles: \<open>number | bigint | string | boolean\<close>
  (the parameter type of \<open>writeRecord\<close>; \<open>BoundSignal.value\<close> is \<open>number | bigint\<close>).
\<close>

datatype jsvalue = VNum jsnum | VBig int | VStr jsstring | VBool bool

text \<open>\<open>Number(b)\<close> for a bigint.\<close>

definition Number_of_big :: "int \<Rightarrow> jsnum" where
  "Number_of_big b = fround (of_int b)"

section \<open>Buffers\<close>

type_synonym byte = "8 word"

text \<open>Little-endian value of a byte sequence.\<close>

fun le_nat :: "byte list \<Rightarrow> nat" where
  "le_nat [] = 0"
| "le_nat (b # bs) = unat b + 256 * le_nat bs"

text \<open>\<open>buf.slice(a, b)\<close> for \<open>0 \<le> a\<close>: clipped to the buffer, never an error.\<close>

definition slice :: "byte list \<Rightarrow> nat \<Rightarrow> nat \<Rightarrow> byte list" where
  "slice buf a b = take (b - a) (drop a buf)"

text \<open>\<open>Buffer.alloc(n)\<close>: \<open>n\<close> zero bytes.\<close>

definition alloc :: "nat \<Rightarrow> byte list" where
  "alloc n = replicate n 0"

datatype error =
    InputTooSmall      \<comment> \<open>\<open>REVLOG file is empty or too small to be valid.\<close>\<close>
  | NotEnoughData      \<comment> \<open>\<open>Not enough data.\<close>\<close>
  | NoValidRecords     \<comment> \<open>\<open>No valid records found.\<close>\<close>
  | DatabaseNotLoaded  \<comment> \<open>\<open>DBC Database not loaded.\<close>\<close>
  | OutOfRange         \<comment> \<open>the \<open>RangeError\<close> of a Buffer read or write out of range\<close>

text \<open>
  \<open>buf.readDoubleLE(off)\<close> and \<open>buf.readFloatLE(off)\<close>: a \<open>RangeError\<close> when the
  8 (4) bytes do not lie inside the buffer, otherwise the value the bits denote.
\<close>

definition double_of_bits :: "nat \<Rightarrow> jsnum" where
  "double_of_bits w =
     (let s = w div 2 ^ 63; e = (w div 2 ^ 52) mod 2 ^ 11; m = w mod 2 ^ 52
      in if e = 2047 then (if m \<noteq> 0 then NaN else if s = 1 then NegInf else PosInf)
         else (let a = (if e = 0 then of_nat m * pow2 (- 1074)
                        else of_nat (2 ^ 52 + m) * pow2 (int e - 1075))
               in Fin (if s = 1 then - a else a)))"

definition float_of_bits :: "nat \<Rightarrow> jsnum" where
  "float_of_bits w =
     (let s = w div 2 ^ 31; e = (w div 2 ^ 23) mod 2 ^ 8; m = w mod 2 ^ 23
      in if e = 255 then (if m \<noteq> 0 then NaN else if s = 1 then NegInf else PosInf)
         else (let a = (if e = 0 then of_nat m * pow2 (- 149)
                        else of_nat (2 ^ 23 + m) * pow2 (int e - 150))
               in Fin (if s = 1 then - a else a)))"

definition readDoubleLE :: "byte list \<Rightarrow> nat \<Rightarrow> error + jsnum" where
  "readDoubleLE buf off =
     (if off + 8 > length buf then Inl OutOfRange
      else Inr (double_of_bits (le_nat (slice buf off (off + 8)))))"

definition readFloatLE :: "byte list \<Rightarrow> nat \<Rightarrow> error + jsnum" where
  "readFloatLE buf off =
     (if off + 4 > length buf then Inl OutOfRange
      else Inr (float_of_bits (le_nat (slice buf off (off + 4)))))"

section \<open>The signal catalog (\<open>Dbc\<close>)\<close>

datatype data_type = DInt | DFloat | DDouble

record Signal =
  sig_name :: string
  startBit :: nat
  sig_length :: nat
  isLittleEndian :: bool
  isSigned :: bool
  factor :: jsnum
  offset :: jsnum
  sig_min :: jsnum
  sig_max :: jsnum
  sig_unit :: string
  description :: "string option"
  dataType :: data_type

text \<open>
  A JavaScript \<open>Map\<close> iterates in insertion order and \<open>set\<close> on a present key replaces
  the value in place: an association list with \<open>AList.update\<close> and \<open>map_of\<close>.
\<close>

record Message =
  msg_id :: nat
  msg_name :: string
  dlc :: nat
  sender :: string
  signals :: "(string \<times> Signal) list"

text \<open>
  \<open>messages\<close> and \<open>messagesById\<close> hold references to the same \<open>Message\<close> objects, which
  \<open>load\<close> mutates after registering them. The objects live in \<open>heap\<close>; both maps hold
  addresses (indices into \<open>heap\<close>).
\<close>

record Dbc =
  heap :: "Message list"
  messages :: "(string \<times> nat) list"
  messagesById :: "(nat \<times> nat) list"

definition new_Dbc :: Dbc where
  "new_Dbc = \<lparr>heap = [], messages = [], messagesById = []\<rparr>"

text \<open>
  One line of a definition file, as the four regular expressions of \<open>load\<close> see it: the
  pattern that matches (their leading keywords \<open>BO_\<close>, \<open>SG_\<close>, \<open>SIG_VALTYPE_\<close>,
  \<open>CM_ SG_\<close> exclude one another) with its capture groups, numbers already converted by
  \<open>parseInt\<close> and \<open>parseFloat\<close>. The third group of a value-type line stays a string:
  the code compares it with \<open>'1'\<close> and \<open>'2'\<close>.
\<close>

datatype dbc_line =
    LineBO nat string nat string
  | LineSG string nat nat bool bool jsnum jsnum jsnum jsnum string
  | LineValType nat string string
  | LineComment nat string string
  | LineOther

text \<open>\<open>messagesById.get(id)?.signals.get(name)\<close>: the address and the signal, if both exist.\<close>

definition find_signal :: "Dbc \<Rightarrow> nat \<Rightarrow> string \<Rightarrow> (nat \<times> Signal) option" where
  "find_signal d i n =
     (case map_of (messagesById d) i of
        None \<Rightarrow> None
      | Some a \<Rightarrow> (case map_of (signals (heap d ! a)) n of
                     None \<Rightarrow> None
                   | Some s \<Rightarrow> Some (a, s)))"

text \<open>Store a signal under key \<open>k\<close> in the message object at address \<open>a\<close>.\<close>

definition put_signal :: "Dbc \<Rightarrow> nat \<Rightarrow> string \<Rightarrow> Signal \<Rightarrow> Dbc" where
  "put_signal d a k s =
     d\<lparr>heap := (heap d)[a := (heap d ! a)
                  \<lparr>signals := AList.update k s (signals (heap d ! a))\<rparr>]\<rparr>"

text \<open>The body of the loop over lines; the state is the catalog and \<open>currentMessage\<close>.\<close>

fun load_line :: "Dbc \<times> nat option \<Rightarrow> dbc_line \<Rightarrow> Dbc \<times> nat option" where
  "load_line (d, cur) (LineBO i n l s) =
     (let a = length (heap d);
          m = \<lparr>msg_id = i, msg_name = n, dlc = l, sender = s, signals = []\<rparr>
      in (\<lparr>heap = heap d @ [m],
           messages = AList.update n a (messages d),
           messagesById = AList.update i a (messagesById d)\<rparr>, Some a))"
| "load_line (d, cur) (LineSG n sb len le sg f off mn mx u) =
     (case cur of
        None \<Rightarrow> (d, cur)
      | Some a \<Rightarrow>
          (put_signal d a n
             \<lparr>sig_name = n, startBit = sb, sig_length = len, isLittleEndian = le,
              isSigned = sg, factor = f, offset = off, sig_min = mn, sig_max = mx,
              sig_unit = u, description = None, dataType = DInt\<rparr>, cur))"
| "load_line (d, cur) (LineValType i n c) =
     (case find_signal d i n of
        None \<Rightarrow> (d, cur)
      | Some (a, s) \<Rightarrow>
          (let s1 = (if c = ''1'' then s\<lparr>dataType := DFloat\<rparr> else s);
               s2 = (if c = ''2'' then s1\<lparr>dataType := DDouble\<rparr> else s1)
           in (put_signal d a n s2, cur)))"
| "load_line (d, cur) (LineComment i n t) =
     (case find_signal d i n of
        None \<Rightarrow> (d, cur)
      | Some (a, s) \<Rightarrow> (put_signal d a n (s\<lparr>description := Some t\<rparr>), cur))"
| "load_line (d, cur) LineOther = (d, cur)"

text \<open>\<open>dbc.load(content)\<close> on a catalog; \<open>new Dbc().load(content)\<close> is \<open>load new_Dbc\<close>.\<close>

definition load :: "Dbc \<Rightarrow> dbc_line list \<Rightarrow> Dbc" where
  "load d ls = fst (foldl load_line (d, None) ls)"

text \<open>\<open>dbc.messages.get(name)\<close>, \<open>dbc.messagesById.get(id)\<close>, \<open>[...dbc.messages.values()]\<close>.\<close>

definition messages_get :: "Dbc \<Rightarrow> string \<Rightarrow> Message option" where
  "messages_get d n = map_option (\<lambda>a. heap d ! a) (map_of (messages d) n)"

definition messagesById_get :: "Dbc \<Rightarrow> nat \<Rightarrow> Message option" where
  "messagesById_get d i = map_option (\<lambda>a. heap d ! a) (map_of (messagesById d) i)"

definition messages_values :: "Dbc \<Rightarrow> Message list" where
  "messages_values d = map (\<lambda>(n, a). heap d ! a) (messages d)"

section \<open>The CAN decoder\<close>

record BoundSignal =
  bs_signal :: Signal
  bs_value :: jsvalue
  bs_rawValue :: jsvalue

record DecodedMessage =
  dec_id :: nat
  dec_name :: string
  boundSignals :: "(string \<times> BoundSignal) list"

text \<open>\<open>a << n\<close> on bigints: a negative count shifts right.\<close>

definition big_shl :: "int \<Rightarrow> int \<Rightarrow> int" where
  "big_shl a n = (if 0 \<le> n then push_bit (nat n) a else drop_bit (nat (- n)) a)"

text \<open>
  The little-endian integer branch up to \<open>rawValue = rawBig\<close>: mask and shift on the
  64-bit read \<open>bufferAsBigInt\<close>, then the sign extension.
\<close>

definition rawBig :: "int \<Rightarrow> Signal \<Rightarrow> int" where
  "rawBig bufferAsBigInt s =
     (let mask = big_shl 1 (int (sig_length s)) - 1;
          shift = startBit s;
          raw = (drop_bit shift bufferAsBigInt) AND mask
      in if isSigned s
         then (let signBit = big_shl 1 (int (sig_length s) - 1)
               in if raw AND signBit \<noteq> 0 then raw - big_shl 1 (int (sig_length s)) else raw)
         else raw)"

text \<open>The range clamp at the end of the loop body: only a \<open>number\<close> is clamped.\<close>

definition clamp :: "Signal \<Rightarrow> jsvalue \<Rightarrow> jsvalue" where
  "clamp s physicalValue =
     (case physicalValue of
        VNum x \<Rightarrow>
          (if \<not> num_eq (sig_min s) (Fin 0) \<or> \<not> num_eq (sig_max s) (Fin 0)
           then (let x1 = (if num_lt x (sig_min s) then sig_min s else x);
                     x2 = (if num_lt (sig_max s) x1 then sig_max s else x1)
                 in VNum x2)
           else VNum x)
      | v \<Rightarrow> v)"

text \<open>The body of the loop over the signals of a message.\<close>

definition decode_signal :: "byte list \<Rightarrow> int \<Rightarrow> Signal \<Rightarrow> error + BoundSignal" where
  "decode_signal data bufferAsBigInt s =
     (case
        (if dataType s = DFloat \<or> dataType s = DDouble
         then (let byteOffset = startBit s div 8;
                   isDouble = (dataType s = DDouble \<or> sig_length s = 64)
               in case (if isDouble then readDoubleLE data byteOffset
                        else readFloatLE data byteOffset) of
                    Inl e \<Rightarrow> Inl e
                  | Inr p \<Rightarrow> Inr (VNum p, VNum p))
         else if isLittleEndian s
         then (let r = rawBig bufferAsBigInt s
               in Inr (VBig r,
                       if num_eq (factor s) (Fin 1) \<and> num_eq (offset s) (Fin 0) then VBig r
                       else VNum (fadd (fmul (Number_of_big r) (factor s)) (offset s))))
         else Inr (VNum (Fin 0),
                   if startBit s mod 8 = 7 \<and> sig_length s = 16 then VNum (Fin 0)
                   else VNum (Fin 0)))
      of
        Inl e \<Rightarrow> Inl e
      | Inr (rawValue, physicalValue) \<Rightarrow>
          Inr \<lparr>bs_signal = s, bs_value = clamp s physicalValue, bs_rawValue = rawValue\<rparr>)"

fun decode_signals ::
  "byte list \<Rightarrow> int \<Rightarrow> Signal list \<Rightarrow> (string \<times> BoundSignal) list
     \<Rightarrow> error + (string \<times> BoundSignal) list" where
  "decode_signals data buf [] acc = Inr acc"
| "decode_signals data buf (s # ss) acc =
     (case decode_signal data buf s of
        Inl e \<Rightarrow> Inl e
      | Inr b \<Rightarrow> decode_signals data buf ss (AList.update (sig_name s) b acc))"

text \<open>
  \<open>CanDecoder.decode\<close>. The decoder's \<open>database\<close> field is \<open>Dbc | null\<close>; the frame is its
  id and data. \<open>Inr None\<close> is the \<open>null\<close> returned for an unknown frame id.
\<close>

definition decode :: "Dbc option \<Rightarrow> nat \<Rightarrow> byte list \<Rightarrow> error + DecodedMessage option" where
  "decode database frame_id frame_data =
     (case database of
        None \<Rightarrow> Inl DatabaseNotLoaded
      | Some db \<Rightarrow>
          (case messagesById_get db frame_id of
             None \<Rightarrow> Inr None
           | Some message \<Rightarrow>
               (let neededLength = max (dlc message) 8;
                    data = (if length frame_data < neededLength
                            then frame_data @ alloc (neededLength - length frame_data)
                            else frame_data);
                    bufferAsBigInt = int (le_nat (slice data 0 8))
                in case decode_signals data bufferAsBigInt (map snd (signals message)) [] of
                     Inl e \<Rightarrow> Inl e
                   | Inr bs \<Rightarrow>
                       Inr (Some \<lparr>dec_id = msg_id message, dec_name = msg_name message,
                                  boundSignals = bs\<rparr>))))"

section \<open>The device registry\<close>

text \<open>
  \<open>(x >> k) & m\<close> on a non-negative integer \<open>number\<close>: \<open>x\<close> wraps to 32 bits, the shift
  is arithmetic, the result is read back as a number (non-negative for the masks used).
\<close>

definition shr_and :: "nat \<Rightarrow> nat \<Rightarrow> nat \<Rightarrow> nat" where
  "shr_and x k m = unat (signed_drop_bit k (word_of_nat x :: 32 word) AND word_of_nat m)"

record Device =
  canDecoder :: "Dbc option"
  dev_dbc :: Dbc
  prefix :: string
  firmwareFrameId :: "nat option"
  firmwareMessageName :: string
  periodicFrames :: "(nat \<times> Message) list"
  customVersionParser :: "(byte list \<Rightarrow> string) option"

text \<open>\<open>s.startsWith(p)\<close> and \<open>s.endsWith(p)\<close>.\<close>

definition startsWith :: "string \<Rightarrow> string \<Rightarrow> bool" where
  "startsWith s p = (take (length p) s = p)"

definition endsWith :: "string \<Rightarrow> string \<Rightarrow> bool" where
  "endsWith s p = (length p \<le> length s \<and> drop (length s - length p) s = p)"

text \<open>A non-negative integer in a template literal: its decimal digits.\<close>

function dec_string :: "nat \<Rightarrow> string" where
  "dec_string n =
     (if n < 10 then [''0123456789'' ! n]
      else dec_string (n div 10) @ [''0123456789'' ! (n mod 10)])"
  by pat_completeness auto
termination
  by (relation "measure id") auto

declare dec_string.simps [simp del]

definition createDeviceMap ::
  "Dbc \<Rightarrow> string \<Rightarrow> string \<Rightarrow> string \<Rightarrow> (byte list \<Rightarrow> string) option \<Rightarrow> Device" where
  "createDeviceMap d pre fwName periodicPrefix custom =
     \<lparr>canDecoder = Some d,
      dev_dbc = d,
      prefix = pre,
      firmwareFrameId = map_option msg_id (messages_get d fwName),
      firmwareMessageName = fwName,
      periodicFrames =
        foldl (\<lambda>acc m. AList.update (shr_and (msg_id m) 6 15) m acc) []
          (filter (\<lambda>m. startsWith (msg_name m) periodicPrefix) (messages_values d)),
      customVersionParser = custom\<rparr>"

text \<open>\<open>device.parseFirmwareVersion(decoded, data)\<close>; the decoded signals are not used.\<close>

definition parseFirmwareVersion ::
  "Device \<Rightarrow> (string \<times> BoundSignal) list \<Rightarrow> byte list \<Rightarrow> string" where
  "parseFirmwareVersion dev decoded data =
     (if length data = 0 then ''0.0.0''
      else case customVersionParser dev of
             Some f \<Rightarrow> f data
           | None \<Rightarrow>
               (let major = (if length data > 0 then unat (data ! 0) else 0);
                    minor = (if length data > 1 then unat (data ! 1) else 0);
                    build = (if length data > 3
                             then unat (data ! 2) * 256 + unat (data ! 3) else 0)
                in dec_string major @ ''.'' @ dec_string minor @ ''.'' @ dec_string build))"

text \<open>The encoder's version rule: bytes 5, 4, 3.\<close>

definition encoderVersionParser :: "byte list \<Rightarrow> string" where
  "encoderVersionParser data =
     (if length data < 6 then ''0.0.0''
      else dec_string (unat (data ! 5)) @ ''.'' @ dec_string (unat (data ! 4)) @ ''.''
           @ dec_string (unat (data ! 3)))"

text \<open>
  The registry \<open>devices\<close>, from the three catalogs. Their text files are resources outside
  the sources, so the loaded catalogs are parameters.
\<close>

definition devices :: "Dbc \<Rightarrow> Dbc \<Rightarrow> Dbc \<Rightarrow> (nat \<times> Device) list" where
  "devices sparkDbc servohubDbc encoderDbc =
     AList.update 7
       (createDeviceMap encoderDbc ''REV/Encoder-'' ''GET_VERSIONING_RESP''
          ''PERIODIC_FRAME_'' (Some encoderVersionParser))
       (AList.update 12
          (createDeviceMap servohubDbc ''REV/ServoHub-'' ''GET_VERSION'' ''STATUS_'' None)
          (AList.update 2
             (createDeviceMap sparkDbc ''REV/Spark-'' ''GET_FIRMWARE_VERSION'' ''STATUS_'' None)
             []))"

section \<open>The target writer\<close>

text \<open>
  What \<open>writeRecord\<close> puts into a data record, by the declared type of the stream:
  one byte for a boolean, the 8-byte signed integer, and for the other three types the
  encoding of the value the code passes on: the IEEE bytes of \<open>Number(v)\<close> in 4 or
  8 bytes, the UTF-8 bytes of \<open>String(v)\<close>.
\<close>

datatype payload =
    PBoolean bool
  | PInt64 int
  | PFloat jsvalue
  | PDouble jsvalue
  | PString jsvalue

text \<open>The type string a payload was encoded under.\<close>

fun payload_type :: "payload \<Rightarrow> string" where
  "payload_type (PBoolean _) = ''boolean''"
| "payload_type (PInt64 _) = ''int64''"
| "payload_type (PFloat _) = ''float''"
| "payload_type (PDouble _) = ''double''"
| "payload_type (PString _) = ''string''"

text \<open>
  One element of the output: the file header, a control record (assigned id, name, type
  string, metadata) or a data record (id, payload, timestamp in microseconds). Each is one
  \<open>outputChunks.push\<close> of the source.
\<close>

datatype out_record =
    FileHeader string nat nat string
  | Control nat string string string
  | Data nat payload nat

record wstate =
  RECORDS :: "(string \<times> (nat \<times> string)) list"
  NEXT_RECORD_ID :: nat
  outputChunks :: "out_record list"
  recordsProcessed :: bool

text \<open>
  \<open>writeControlRecord\<close>: \<open>writeUInt32LE(entryId)\<close> raises a \<open>RangeError\<close> above
  \<open>0xFFFFFFFF\<close>, before anything is pushed or registered.
\<close>

definition writeControlRecord ::
  "nat \<Rightarrow> string \<Rightarrow> string \<Rightarrow> string \<Rightarrow> wstate \<Rightarrow> error + wstate" where
  "writeControlRecord entryId entryName dataType' metadata st =
     (if entryId > 0xFFFFFFFF then Inl OutOfRange
      else Inr (st\<lparr>outputChunks := outputChunks st @ [Control entryId entryName dataType' metadata],
                   RECORDS := AList.update entryName (entryId, dataType') (RECORDS st)\<rparr>))"

text \<open>Truthiness of a value (\<open>entryValue ? 1 : 0\<close>).\<close>

fun truthy :: "jsvalue \<Rightarrow> bool" where
  "truthy (VNum x) = (x \<noteq> NaN \<and> x \<noteq> Fin 0)"
| "truthy (VBig i) = (i \<noteq> 0)"
| "truthy (VStr s) = (s \<noteq> [])"
| "truthy (VBool b) = b"

text \<open>\<open>Math.round\<close>: the nearest integer, halves upwards.\<close>

fun Math_round :: "jsnum \<Rightarrow> jsnum" where
  "Math_round (Fin r) = Fin (of_int \<lfloor>r + 1 / 2\<rfloor>)"
| "Math_round x = x"

text \<open>
  \<open>BigInt(s)\<close> for a string: white space at both ends is dropped; the empty string is
  \<open>0n\<close>; then a decimal integer with an optional sign, or an unsigned literal with prefix
  \<open>0x\<close>, \<open>0o\<close> or \<open>0b\<close>; anything else raises a \<open>SyntaxError\<close> (\<open>None\<close>).
  White space is the white space and line terminator code points of the language: TAB, LF,
  VT, FF, CR, space, U+00A0, U+1680, U+2000 to U+200A, U+2028, U+2029, U+202F, U+205F,
  U+3000 and U+FEFF.
\<close>

definition is_ws :: "16 word \<Rightarrow> bool" where
  "is_ws c =
     (let n = unat c
      in n \<in> {9, 10, 11, 12, 13, 32, 160, 5760, 8232, 8233, 8239, 8287, 12288, 65279} \<or>
         (8192 \<le> n \<and> n \<le> 8202))"

definition trim :: "jsstring \<Rightarrow> jsstring" where
  "trim s = rev (dropWhile is_ws (rev (dropWhile is_ws s)))"

definition digit_val :: "16 word \<Rightarrow> nat option" where
  "digit_val c =
     (let n = unat c
      in if 48 \<le> n \<and> n \<le> 57 then Some (n - 48)
         else if 97 \<le> n \<and> n \<le> 102 then Some (n - 87)
         else if 65 \<le> n \<and> n \<le> 70 then Some (n - 55)
         else None)"

fun digits_val :: "nat \<Rightarrow> jsstring \<Rightarrow> nat \<Rightarrow> nat option" where
  "digits_val base [] acc = Some acc"
| "digits_val base (c # cs) acc =
     (case digit_val c of
        None \<Rightarrow> None
      | Some d \<Rightarrow> if d < base then digits_val base cs (acc * base + d) else None)"

definition parse_digits :: "nat \<Rightarrow> jsstring \<Rightarrow> nat option" where
  "parse_digits base s = (if s = [] then None else digits_val base s 0)"

definition StringToBigInt :: "jsstring \<Rightarrow> int option" where
  "StringToBigInt s =
     (let t = trim s
      in if t = [] then Some 0
         else if take 2 t = js_string ''0x'' \<or> take 2 t = js_string ''0X''
         then map_option int (parse_digits 16 (drop 2 t))
         else if take 2 t = js_string ''0o'' \<or> take 2 t = js_string ''0O''
         then map_option int (parse_digits 8 (drop 2 t))
         else if take 2 t = js_string ''0b'' \<or> take 2 t = js_string ''0B''
         then map_option int (parse_digits 2 (drop 2 t))
         else if take 1 t = js_string ''-''
         then map_option (\<lambda>n. - int n) (parse_digits 10 (drop 1 t))
         else if take 1 t = js_string ''+'' then map_option int (parse_digits 10 (drop 1 t))
         else map_option int (parse_digits 10 t))"

text \<open>\<open>BigInt(v)\<close>: a number must be an integer (\<open>RangeError\<close> otherwise).\<close>

fun BigInt :: "jsvalue \<Rightarrow> int option" where
  "BigInt (VNum (Fin r)) = (if of_int \<lfloor>r\<rfloor> = r then Some \<lfloor>r\<rfloor> else None)"
| "BigInt (VNum _) = None"
| "BigInt (VBig i) = Some i"
| "BigInt (VBool b) = Some (if b then 1 else 0)"
| "BigInt (VStr s) = StringToBigInt s"

text \<open>
  The \<open>try\<close> block of the \<open>int64\<close> case: \<open>None\<close> when \<open>BigInt\<close> or
  \<open>writeBigInt64LE\<close> (range \<open>-2^63 .. 2^63 - 1\<close>) raises.
\<close>

definition try_int64 :: "jsvalue \<Rightarrow> int option" where
  "try_int64 entryValue =
     (case BigInt (case entryValue of VNum x \<Rightarrow> VNum (Math_round x) | v \<Rightarrow> v) of
        None \<Rightarrow> None
      | Some b \<Rightarrow> if - (2 ^ 63) \<le> b \<and> b \<le> 2 ^ 63 - 1 then Some b else None)"

text \<open>
  \<open>writeRecord\<close>. The timestamp is a non-negative integer at both call sites (\<open>0\<close> and
  a \<open>readUInt32LE\<close>).
\<close>

definition writeRecord :: "string \<Rightarrow> jsvalue \<Rightarrow> nat \<Rightarrow> wstate \<Rightarrow> wstate" where
  "writeRecord entryName entryValue timestampMs st =
     (case map_of (RECORDS st) entryName of
        None \<Rightarrow> st
      | Some (rid, typ) \<Rightarrow>
          (case (if typ = ''boolean'' then Some (PBoolean (truthy entryValue))
                 else if typ = ''int64''
                 then Some (PInt64 (case try_int64 entryValue of Some b \<Rightarrow> b | None \<Rightarrow> 0))
                 else if typ = ''float'' then Some (PFloat entryValue)
                 else if typ = ''double'' then Some (PDouble entryValue)
                 else if typ = ''string'' then Some (PString entryValue)
                 else None) of
             None \<Rightarrow> st
           | Some p \<Rightarrow>
               (let timestampUs = timestampMs * 1000
                in st\<lparr>outputChunks := outputChunks st @ [Data rid p timestampUs]\<rparr>)))"

definition getWpilogTypeFromSignal :: "Signal \<Rightarrow> string" where
  "getWpilogTypeFromSignal s =
     (if sig_length s = 1 then ''boolean''
      else (let isFloat = (dataType s = DFloat \<or> dataType s = DDouble \<or>
                           (\<not> num_eq (factor s) (Fin 1) \<and> \<not> num_eq (factor s) (Fin 0)))
            in if isFloat
               then (if sig_length s = 32 \<and> dataType s = DFloat then ''float'' else ''double'')
               else ''int64''))"

section \<open>The record transcoder\<close>

text \<open>\<open>readVariableInt\<close> and \<open>payloadBytes.readUInt32LE(pc)\<close> (in range where it is called).\<close>

definition readVariableInt :: "byte list \<Rightarrow> nat \<Rightarrow> nat \<Rightarrow> error + (nat \<times> nat)" where
  "readVariableInt data cursor len =
     (if cursor + len > length data then Inl NotEnoughData
      else Inr (le_nat (slice data cursor (cursor + len)), cursor + len))"

definition readUInt32LE :: "byte list \<Rightarrow> nat \<Rightarrow> nat" where
  "readUInt32LE buf off = le_nat (slice buf off (off + 4))"

text \<open>One 10-byte record of a firmware block (the body of the \<open>for\<close> loop).\<close>

definition firmware_record ::
  "(nat \<times> Device) list \<Rightarrow> byte list \<Rightarrow> nat \<Rightarrow> wstate \<Rightarrow> error + wstate" where
  "firmware_record devs payloadBytes pc st =
     (let messageId = readUInt32LE payloadBytes pc;
          canData = slice payloadBytes (pc + 4) (pc + 10);
          deviceType = shr_and messageId 24 0x1f
      in case map_of devs deviceType of
           None \<Rightarrow> Inr st
         | Some device \<Rightarrow>
             (case firmwareFrameId device of
                None \<Rightarrow> Inr st
              | Some fid \<Rightarrow>
                  if fid = 0 then Inr st
                  else (let padded = canData @ alloc 8
                        in case decode (canDecoder device) fid padded of
                             Inl e \<Rightarrow> Inl e
                           | Inr None \<Rightarrow> Inr st
                           | Inr (Some decoded) \<Rightarrow>
                               (let name = prefix device @ dec_string (shr_and messageId 0 0x3f)
                                           @ ''/FIRMWARE'';
                                    v = VStr (js_string (parseFirmwareVersion device
                                                (boundSignals decoded) canData))
                                in if map_of (RECORDS st) name = None
                                   then (case writeControlRecord (NEXT_RECORD_ID st) name
                                                ''string'' []
                                                (st\<lparr>NEXT_RECORD_ID := NEXT_RECORD_ID st + 1\<rparr>) of
                                           Inl e \<Rightarrow> Inl e
                                         | Inr st1 \<Rightarrow> Inr (writeRecord name v 0 st1))
                                   else Inr (writeRecord name v 0 st)))))"

function firmware_loop ::
  "(nat \<times> Device) list \<Rightarrow> byte list \<Rightarrow> nat \<Rightarrow> wstate \<Rightarrow> error + wstate" where
  "firmware_loop devs payloadBytes pc st =
     (if pc + 10 \<le> length payloadBytes
      then (case firmware_record devs payloadBytes pc st of
              Inl e \<Rightarrow> Inl e
            | Inr st1 \<Rightarrow> firmware_loop devs payloadBytes (pc + 10) st1)
      else Inr st)"
  by pat_completeness auto
termination
  by (relation "measure (\<lambda>(devs, payloadBytes, pc, st). length payloadBytes - pc)") auto

declare firmware_loop.simps [simp del]

text \<open>
  The loop over the bound signals of one decoded periodic frame. It runs inside the
  \<open>try\<close>: when \<open>writeControlRecord\<close> raises, the loop ends, the \<open>catch\<close> drops the
  exception, and the state is as it was at the raise (the counter already incremented).
\<close>

fun periodic_signals ::
  "Device \<Rightarrow> nat \<Rightarrow> Message \<Rightarrow> nat \<Rightarrow> (string \<times> BoundSignal) list \<Rightarrow> wstate \<Rightarrow> wstate" where
  "periodic_signals device messageId messageSpec msgTsMs [] st = st"
| "periodic_signals device messageId messageSpec msgTsMs ((signalName, boundSignal) # rest) st =
     (case map_of (signals messageSpec) signalName of
        None \<Rightarrow> periodic_signals device messageId messageSpec msgTsMs rest st
      | Some signalSpec \<Rightarrow>
          (let folder = (if endsWith signalName ''FAULT'' then ''/FAULT/''
                         else if endsWith signalName ''WARNING'' then ''/WARNING/''
                         else ''/'');
               name = prefix device @ dec_string (shr_and messageId 0 0x3f) @ folder @ signalName
           in if map_of (RECORDS st) name = None
              then (let wpilogType = getWpilogTypeFromSignal signalSpec;
                        metadata = (case description signalSpec of
                                      Some d \<Rightarrow> d | None \<Rightarrow> sig_unit signalSpec);
                        st0 = st\<lparr>NEXT_RECORD_ID := NEXT_RECORD_ID st + 1\<rparr>
                    in case writeControlRecord (NEXT_RECORD_ID st) name wpilogType metadata st0 of
                         Inl e \<Rightarrow> st0
                       | Inr st1 \<Rightarrow>
                           periodic_signals device messageId messageSpec msgTsMs rest
                             (writeRecord name (bs_value boundSignal) msgTsMs st1))
              else periodic_signals device messageId messageSpec msgTsMs rest
                     (writeRecord name (bs_value boundSignal) msgTsMs st)))"

text \<open>One 16-byte record of a periodic block; a decode error skips the record.\<close>

definition periodic_record ::
  "(nat \<times> Device) list \<Rightarrow> byte list \<Rightarrow> nat \<Rightarrow> wstate \<Rightarrow> wstate" where
  "periodic_record devs payloadBytes pc st =
     (let msgTsMs = readUInt32LE payloadBytes pc;
          messageId = readUInt32LE payloadBytes (pc + 4);
          canData = slice payloadBytes (pc + 8) (pc + 16);
          deviceType = shr_and messageId 24 0x1f
      in case map_of devs deviceType of
           None \<Rightarrow> st
         | Some device \<Rightarrow>
             (let frameIndex = shr_and messageId 6 0xf
              in case map_of (periodicFrames device) frameIndex of
                   None \<Rightarrow> st
                 | Some messageSpec \<Rightarrow>
                     (let alignedData = (if length canData < dlc messageSpec
                                         then canData @ alloc (dlc messageSpec - length canData)
                                         else canData)
                      in case decode (canDecoder device) (msg_id messageSpec) alignedData of
                           Inl e \<Rightarrow> st
                         | Inr None \<Rightarrow> st
                         | Inr (Some decoded) \<Rightarrow>
                             periodic_signals device messageId messageSpec msgTsMs
                               (boundSignals decoded) st)))"

function periodic_loop ::
  "(nat \<times> Device) list \<Rightarrow> byte list \<Rightarrow> nat \<Rightarrow> wstate \<Rightarrow> wstate" where
  "periodic_loop devs payloadBytes pc st =
     (if pc + 16 \<le> length payloadBytes
      then periodic_loop devs payloadBytes (pc + 16) (periodic_record devs payloadBytes pc st)
      else st)"
  by pat_completeness auto
termination
  by (relation "measure (\<lambda>(devs, payloadBytes, pc, st). length payloadBytes - pc)") auto

declare periodic_loop.simps [simp del]

text \<open>
  The framing part of one iteration of the \<open>while\<close> loop at \<open>cursor\<close>: the control
  byte, the entry id and the payload length, then the payload. The result is an exception,
  a \<open>break\<close> (\<open>Inr None\<close>), or the entry id, the payload and the cursor after it.
\<close>

definition read_entry :: "byte list \<Rightarrow> nat \<Rightarrow> error + (nat \<times> byte list \<times> nat) option" where
  "read_entry data cursor =
     (if cursor + 1 > length data then Inr None
      else (let bitfield = unat (data ! cursor);
                c1 = cursor + 1;
                entryIdLen = (bitfield AND 3) + 1;
                sizeLen = ((drop_bit 2 bitfield) AND 3) + 1
            in case readVariableInt data c1 entryIdLen of
                 Inl e \<Rightarrow> Inl e
               | Inr (entryId, c2) \<Rightarrow>
                   (case readVariableInt data c2 sizeLen of
                      Inl e \<Rightarrow> Inl e
                    | Inr (payloadSize, c3) \<Rightarrow>
                        if c3 + payloadSize > length data then Inr None
                        else Inr (Some (entryId, slice data c3 (c3 + payloadSize),
                                        c3 + payloadSize)))))"

text \<open>The dispatch on the entry id: firmware block, periodic block, or skipped.\<close>

definition dispatch ::
  "(nat \<times> Device) list \<Rightarrow> nat \<Rightarrow> byte list \<Rightarrow> wstate \<Rightarrow> error + wstate" where
  "dispatch devs entryId payloadBytes st =
     (if entryId = 1
      then firmware_loop devs payloadBytes 0 (st\<lparr>recordsProcessed := True\<rparr>)
      else if entryId = 2
      then Inr (periodic_loop devs payloadBytes 0 (st\<lparr>recordsProcessed := True\<rparr>))
      else Inr st)"

text \<open>One iteration of the \<open>while\<close> loop: the next cursor and state, unless it ends the scan.\<close>

definition scan_step ::
  "(nat \<times> Device) list \<Rightarrow> byte list \<Rightarrow> nat \<Rightarrow> wstate \<Rightarrow> error + (nat \<times> wstate) option" where
  "scan_step devs data cursor st =
     (case read_entry data cursor of
        Inl e \<Rightarrow> Inl e
      | Inr None \<Rightarrow> Inr None
      | Inr (Some (entryId, payloadBytes, c4)) \<Rightarrow>
          (case dispatch devs entryId payloadBytes st of
             Inl e \<Rightarrow> Inl e
           | Inr st1 \<Rightarrow> Inr (Some (c4, st1))))"

lemma read_entry_advances:
  "read_entry data cursor = Inr (Some (i, p, c)) \<Longrightarrow> cursor < c"
  by (auto simp: read_entry_def readVariableInt_def Let_def split: if_splits)

lemma scan_step_advances:
  "scan_step devs data cursor st = Inr (Some (c, st1)) \<Longrightarrow> cursor < c"
  by (auto simp: scan_step_def split: sum.splits option.splits dest: read_entry_advances)

function scan ::
  "(nat \<times> Device) list \<Rightarrow> byte list \<Rightarrow> nat \<Rightarrow> wstate \<Rightarrow> error + wstate" where
  "scan devs data cursor st =
     (if cursor < length data
      then (case scan_step devs data cursor st of
              Inl e \<Rightarrow> Inl e
            | Inr None \<Rightarrow> Inr st
            | Inr (Some (c, st1)) \<Rightarrow> scan devs data c st1)
      else Inr st)"
  by pat_completeness auto
termination
proof (relation "measure (\<lambda>(devs, data, cursor, st). length data - cursor)")
  show "wf (measure (\<lambda>(devs, data, cursor, st). length data - cursor))" by simp
next
  fix devs :: "(nat \<times> Device) list" and data :: "byte list" and cursor :: nat
    and st :: wstate and x2 x2a c st1
  assume "cursor < length data" "scan_step devs data cursor st = Inr x2"
    "x2 = Some x2a" "(c, st1) = x2a"
  then have "cursor < c" using scan_step_advances by metis
  with \<open>cursor < length data\<close>
  show "((devs, data, c, st1), (devs, data, cursor, st))
          \<in> measure (\<lambda>(devs, data, cursor, st). length data - cursor)"
    by simp
qed

declare scan.simps [simp del]

text \<open>The state before the scan: the file header has been pushed.\<close>

definition init_state :: wstate where
  "init_state =
     \<lparr>RECORDS = [], NEXT_RECORD_ID = 1,
      outputChunks = [FileHeader ''WPILOG'' 1 0 []],
      recordsProcessed = False\<rparr>"

text \<open>
  \<open>parseREVLOG\<close> on a buffer: the list of output records that \<open>Buffer.concat\<close> joins.
  Reading the input and the catalogs from files, and writing the output file, are outside.
\<close>

definition parseREVLOG :: "Dbc \<Rightarrow> Dbc \<Rightarrow> Dbc \<Rightarrow> byte list \<Rightarrow> error + out_record list" where
  "parseREVLOG sparkDbc servohubDbc encoderDbc binary_data =
     (if length binary_data < 3 then Inl InputTooSmall
      else case scan (devices sparkDbc servohubDbc encoderDbc) binary_data 0 init_state of
             Inl e \<Rightarrow> Inl e
           | Inr st \<Rightarrow>
               if \<not> recordsProcessed st then Inl NoValidRecords
               else Inr (outputChunks st))"

section \<open>The output kind of a signal\<close>

text \<open>
  The output kind as the specification words it: boolean for a 1-bit signal; float or
  double when the declared kind is float or double or the scale factor is not exactly 1
  (float for a 32-bit float kind, double otherwise); int64 in all remaining cases.
\<close>

definition spec_wpilogType :: "Signal \<Rightarrow> string" where
  "spec_wpilogType s =
     (if sig_length s = 1 then ''boolean''
      else if dataType s = DFloat \<or> dataType s = DDouble \<or> \<not> num_eq (factor s) (Fin 1)
      then (if sig_length s = 32 \<and> dataType s = DFloat then ''float'' else ''double'')
      else ''int64'')"

definition zero_factor_signal :: Signal where
  "zero_factor_signal =
     \<lparr>sig_name = ''S'', startBit = 0, sig_length = 8, isLittleEndian = True, isSigned = False,
      factor = Fin 0, offset = Fin 0, sig_min = Fin 0, sig_max = Fin 0, sig_unit = [],
      description = None, dataType = DInt\<rparr>"

definition quarter_factor_signal :: Signal where
  "quarter_factor_signal = zero_factor_signal\<lparr>factor := Fin (1 / 4)\<rparr>"

text \<open>
  C4, as stated, fails: an 8-bit integer signal with scale factor 0 has a factor that is
  not exactly 1, so the specification's rule gives double, but the code gives int64.
\<close>

theorem C4_counterexample:
  "getWpilogTypeFromSignal zero_factor_signal = ''int64'' \<and>
   spec_wpilogType zero_factor_signal = ''double''"
  by (simp add: getWpilogTypeFromSignal_def spec_wpilogType_def zero_factor_signal_def)

text \<open>
  C4, amended: the output kind is boolean for a 1-bit signal; otherwise float for a float
  kind of 32 bits, double for a double kind and for a float kind of another length; for an
  integer kind, double when the scale factor is neither exactly 1 nor exactly 0, and int64
  when it is exactly 1 or exactly 0. Except for integer signals with factor 0 this is the
  rule of the specification.
\<close>

theorem C4_output_kind:
  "(sig_length s = 1 \<longrightarrow> getWpilogTypeFromSignal s = ''boolean'') \<and>
   (sig_length s \<noteq> 1 \<and> dataType s = DFloat \<and> sig_length s = 32 \<longrightarrow>
      getWpilogTypeFromSignal s = ''float'') \<and>
   (sig_length s \<noteq> 1 \<and> (dataType s = DDouble \<or> dataType s = DFloat \<and> sig_length s \<noteq> 32) \<longrightarrow>
      getWpilogTypeFromSignal s = ''double'') \<and>
   (sig_length s \<noteq> 1 \<and> dataType s = DInt \<and>
      \<not> num_eq (factor s) (Fin 1) \<and> \<not> num_eq (factor s) (Fin 0) \<longrightarrow>
      getWpilogTypeFromSignal s = ''double'') \<and>
   (sig_length s \<noteq> 1 \<and> dataType s = DInt \<and>
      (num_eq (factor s) (Fin 1) \<or> num_eq (factor s) (Fin 0)) \<longrightarrow>
      getWpilogTypeFromSignal s = ''int64'') \<and>
   (\<not> (sig_length s \<noteq> 1 \<and> dataType s = DInt \<and> num_eq (factor s) (Fin 0)) \<longrightarrow>
      getWpilogTypeFromSignal s = spec_wpilogType s)"
  by (cases "dataType s") (auto simp: getWpilogTypeFromSignal_def spec_wpilogType_def)

theorem C4_output_kind_witness:
  "getWpilogTypeFromSignal (zero_factor_signal\<lparr>sig_length := 1\<rparr>) = ''boolean'' \<and>
   getWpilogTypeFromSignal (zero_factor_signal\<lparr>sig_length := 32, dataType := DFloat\<rparr>) = ''float'' \<and>
   getWpilogTypeFromSignal (zero_factor_signal\<lparr>dataType := DDouble\<rparr>) = ''double'' \<and>
   getWpilogTypeFromSignal quarter_factor_signal = ''double'' \<and>
   getWpilogTypeFromSignal zero_factor_signal = ''int64'' \<and>
   getWpilogTypeFromSignal quarter_factor_signal = spec_wpilogType quarter_factor_signal"
proof -
  have a: "getWpilogTypeFromSignal (zero_factor_signal\<lparr>sig_length := 1\<rparr>) = ''boolean''"
    using C4_output_kind [of "zero_factor_signal\<lparr>sig_length := 1\<rparr>"]
    by (simp add: zero_factor_signal_def)
  have b: "getWpilogTypeFromSignal (zero_factor_signal\<lparr>sig_length := 32, dataType := DFloat\<rparr>)
             = ''float''"
    using C4_output_kind [of "zero_factor_signal\<lparr>sig_length := 32, dataType := DFloat\<rparr>"]
    by (simp add: zero_factor_signal_def)
  have c: "getWpilogTypeFromSignal (zero_factor_signal\<lparr>dataType := DDouble\<rparr>) = ''double''"
    using C4_output_kind [of "zero_factor_signal\<lparr>dataType := DDouble\<rparr>"]
    by (simp add: zero_factor_signal_def)
  have d: "getWpilogTypeFromSignal quarter_factor_signal = ''double''"
    using C4_output_kind [of quarter_factor_signal]
    by (simp add: zero_factor_signal_def quarter_factor_signal_def)
  have e: "getWpilogTypeFromSignal zero_factor_signal = ''int64''"
    using C4_output_kind [of zero_factor_signal]
    by (simp add: zero_factor_signal_def)
  have f: "getWpilogTypeFromSignal quarter_factor_signal = spec_wpilogType quarter_factor_signal"
    using C4_output_kind [of quarter_factor_signal]
    by (auto simp add: zero_factor_signal_def quarter_factor_signal_def)
  from a b c d e f show ?thesis by blast
qed

section \<open>Lines of a definition file that name nothing declared\<close>

text \<open>
  C7, as stated, fails: a value-type line and a comment line that name message 5 and
  signal FOO, neither declared, do not fail the load; it returns the (empty) catalog.
\<close>

theorem C7_counterexample:
  "load new_Dbc [LineValType 5 ''FOO'' ''1''] = new_Dbc \<and>
   load new_Dbc [LineComment 5 ''FOO'' ''text''] = new_Dbc"
  by (simp add: load_def new_Dbc_def find_signal_def)

text \<open>
  C7, amended: a value-type override line or a signal-comment line whose message id or
  signal name is not declared when the line is reached is dropped: the load goes on and
  returns the catalog it returns without that line.
\<close>

theorem C7_undeclared_line_dropped:
  assumes "foldl load_line (d0, None) pre = (d, cur)"
    and "find_signal d i n = None"
  shows "load d0 (pre @ LineValType i n c # post) = load d0 (pre @ post) \<and>
         load d0 (pre @ LineComment i n t # post) = load d0 (pre @ post)"
  using assms by (simp add: load_def)

definition one_message_lines :: "dbc_line list" where
  "one_message_lines =
     [LineBO 100 ''M'' 8 ''X'',
      LineSG ''S'' 0 8 True False (Fin 1) (Fin 0) (Fin 0) (Fin 100) []]"

theorem C7_undeclared_line_dropped_witness:
  "load new_Dbc (one_message_lines @ LineValType 100 ''T'' ''1'' # [LineComment 100 ''S'' ''c''])
     = load new_Dbc (one_message_lines @ [LineComment 100 ''S'' ''c'']) \<and>
   load new_Dbc (one_message_lines @ LineComment 7 ''S'' ''t'' # [LineComment 100 ''S'' ''c''])
     = load new_Dbc (one_message_lines @ [LineComment 100 ''S'' ''c''])"
proof -
  obtain d cur where f: "foldl load_line (new_Dbc, None) one_message_lines = (d, cur)"
    by (cases "foldl load_line (new_Dbc, None) one_message_lines")
  have d: "d = fst (foldl load_line (new_Dbc, None) one_message_lines)"
    by (simp add: f)
  have n1: "find_signal d 100 ''T'' = None"
    unfolding d
    by (simp add: one_message_lines_def new_Dbc_def put_signal_def find_signal_def)
  have n2: "find_signal d 7 ''S'' = None"
    unfolding d
    by (simp add: one_message_lines_def new_Dbc_def put_signal_def find_signal_def)
  show ?thesis
    using C7_undeclared_line_dropped [OF f n1, where c = "''1''"
          and post = "[LineComment 100 ''S'' ''c'']"]
      C7_undeclared_line_dropped [OF f n2, where t = "''t''"
          and post = "[LineComment 100 ''S'' ''c'']"]
    by simp
qed

section \<open>Values that do not encode as a signed 64-bit integer\<close>

text \<open>
  C9: when a value is written to a stream declared int64 and encoding it raises (the
  \<open>try\<close> block fails: \<open>BigInt\<close> rejects the value, or it lies outside the 64-bit range),
  \<open>writeRecord\<close> still appends one data record for the stream, with payload 0, and
  returns normally.
\<close>

theorem C9_int64_failure_writes_zero:
  assumes "map_of (RECORDS st) entryName = Some (rid, ''int64'')"
    and "try_int64 entryValue = None"
  shows "writeRecord entryName entryValue timestampMs st =
           st\<lparr>outputChunks := outputChunks st @ [Data rid (PInt64 0) (timestampMs * 1000)]\<rparr>"
  using assms by (simp add: writeRecord_def)

definition int64_stream_state :: wstate where
  "int64_stream_state =
     \<lparr>RECORDS = [(''REV/Spark-1/COUNT'', (1, ''int64''))], NEXT_RECORD_ID = 2,
      outputChunks = [FileHeader ''WPILOG'' 1 0 [], Control 1 ''REV/Spark-1/COUNT'' ''int64'' []],
      recordsProcessed = True\<rparr>"

lemmas string_eval =
  try_int64_def StringToBigInt_def trim_def is_ws_def parse_digits_def digit_val_def
  js_string_def Let_def

lemma try_int64_non_numeric: "try_int64 (VStr (js_string ''2.5.42'')) = None"
  by (simp add: string_eval)

text \<open>Strings that do encode: a no-break space is white space, a hexadecimal literal.\<close>

lemma try_int64_nbsp: "try_int64 (VStr [160, 53]) = Some 5"
  by (simp add: string_eval)

lemma try_int64_hex: "try_int64 (VStr (js_string '' 0x1F '')) = Some 31"
  by (simp add: string_eval)

lemma try_int64_out_of_range: "try_int64 (VBig (2 ^ 63)) = None"
  by (simp add: try_int64_def)

lemma try_int64_NaN: "try_int64 (VNum NaN) = None"
  by (simp add: try_int64_def)

theorem C9_int64_failure_writes_zero_witness:
  "outputChunks (writeRecord ''REV/Spark-1/COUNT'' (VStr (js_string ''2.5.42'')) 7
      int64_stream_state) =
     [FileHeader ''WPILOG'' 1 0 [], Control 1 ''REV/Spark-1/COUNT'' ''int64'' [],
      Data 1 (PInt64 0) 7000] \<and>
   outputChunks (writeRecord ''REV/Spark-1/COUNT'' (VBig (2 ^ 63)) 7 int64_stream_state) =
     [FileHeader ''WPILOG'' 1 0 [], Control 1 ''REV/Spark-1/COUNT'' ''int64'' [],
      Data 1 (PInt64 0) 7000] \<and>
   outputChunks (writeRecord ''REV/Spark-1/COUNT'' (VNum NaN) 7 int64_stream_state) =
     [FileHeader ''WPILOG'' 1 0 [], Control 1 ''REV/Spark-1/COUNT'' ''int64'' [],
      Data 1 (PInt64 0) 7000]"
proof -
  have r: "map_of (RECORDS int64_stream_state) ''REV/Spark-1/COUNT'' = Some (1, ''int64'')"
    by (simp add: int64_stream_state_def)
  show ?thesis
    using C9_int64_failure_writes_zero [OF r try_int64_non_numeric, of 7]
      C9_int64_failure_writes_zero [OF r try_int64_out_of_range, of 7]
      C9_int64_failure_writes_zero [OF r try_int64_NaN, of 7]
    by (simp add: int64_stream_state_def)
qed

section \<open>The framing of the source log\<close>

text \<open>
  The header of the entry at \<open>cursor\<close> is truncated: the entry-id field or the
  payload-length field that the control byte declares extends past the end of the input.
\<close>

definition header_truncated :: "byte list \<Rightarrow> nat \<Rightarrow> bool" where
  "header_truncated data cursor =
     (let bitfield = unat (data ! cursor);
          entryIdLen = (bitfield AND 3) + 1;
          sizeLen = ((drop_bit 2 bitfield) AND 3) + 1
      in length data < cursor + 1 + entryIdLen \<or>
         length data < cursor + 1 + entryIdLen + sizeLen)"

text \<open>
  The header of the entry at \<open>cursor\<close> is complete and the payload length it declares
  exceeds the bytes that remain.
\<close>

definition payload_overrun :: "byte list \<Rightarrow> nat \<Rightarrow> bool" where
  "payload_overrun data cursor =
     (let bitfield = unat (data ! cursor);
          entryIdLen = (bitfield AND 3) + 1;
          sizeLen = ((drop_bit 2 bitfield) AND 3) + 1;
          c2 = cursor + 1 + entryIdLen;
          c3 = c2 + sizeLen;
          payloadSize = le_nat (slice data c2 c3)
      in c3 \<le> length data \<and> length data < c3 + payloadSize)"

text \<open>
  The cursors and states at which the \<open>while\<close> loop of a run stands: the start, and
  what an iteration that neither raises nor breaks leads to.
\<close>

inductive reach :: "(nat \<times> Device) list \<Rightarrow> byte list \<Rightarrow> nat \<Rightarrow> wstate \<Rightarrow> bool"
  for devs :: "(nat \<times> Device) list" and data :: "byte list" where
  reach_start: "reach devs data 0 init_state"
| reach_next: "reach devs data c st \<Longrightarrow> c < length data \<Longrightarrow>
     scan_step devs data c st = Inr (Some (c1, st1)) \<Longrightarrow> reach devs data c1 st1"

text \<open>
  The entries the scan encounters, by the framing alone: the ids of the entries it frames
  from \<open>cursor\<close> on, and the exception that ends the framing, if one does.
\<close>

function walk :: "byte list \<Rightarrow> nat \<Rightarrow> nat list \<times> error option" where
  "walk data cursor =
     (if cursor < length data
      then (case read_entry data cursor of
              Inl e \<Rightarrow> ([], Some e)
            | Inr None \<Rightarrow> ([], None)
            | Inr (Some (entryId, payloadBytes, c)) \<Rightarrow>
                (case walk data c of (ids, r) \<Rightarrow> (entryId # ids, r)))
      else ([], None))"
  by pat_completeness auto
termination
proof (relation "measure (\<lambda>(data, cursor). length data - cursor)")
  show "wf (measure (\<lambda>(data, cursor). length data - cursor))" by simp
next
  fix data :: "byte list" and cursor :: nat and x2 x2a entryId y payloadBytes c
  assume "cursor < length data" "read_entry data cursor = Inr x2"
    "x2 = Some x2a" "(entryId, y) = x2a" "(payloadBytes, c) = y"
  then have "cursor < c" using read_entry_advances by metis
  with \<open>cursor < length data\<close>
  show "((data, c), (data, cursor)) \<in> measure (\<lambda>(data, cursor). length data - cursor)"
    by simp
qed

declare walk.simps [simp del]

lemma reach_scan:
  "reach devs data c st \<Longrightarrow> scan devs data 0 init_state = scan devs data c st"
proof (induction rule: reach.induct)
  case reach_start
  show ?case by simp
next
  case (reach_next c st c1 st1)
  have "scan devs data c st = scan devs data c1 st1"
    using reach_next.hyps(2,3) by (subst scan.simps) simp
  with reach_next.IH show ?case by simp
qed

lemma read_entry_truncated:
  "cursor < length data \<Longrightarrow> header_truncated data cursor \<Longrightarrow>
     read_entry data cursor = Inl NotEnoughData"
  by (auto simp: read_entry_def header_truncated_def readVariableInt_def Let_def)

lemma read_entry_overrun:
  "cursor < length data \<Longrightarrow> payload_overrun data cursor \<Longrightarrow>
     read_entry data cursor = Inr None"
  by (auto simp: read_entry_def payload_overrun_def readVariableInt_def Let_def)

lemma scan_truncated:
  "cursor < length data \<Longrightarrow> header_truncated data cursor \<Longrightarrow>
     scan devs data cursor st = Inl NotEnoughData"
  by (subst scan.simps) (simp add: scan_step_def read_entry_truncated)

lemma scan_overrun:
  "cursor < length data \<Longrightarrow> payload_overrun data cursor \<Longrightarrow>
     scan devs data cursor st = Inr st"
  by (subst scan.simps) (simp add: scan_step_def read_entry_overrun)

text \<open>
  C10, amended: for an input of at least 3 bytes, when the scan stands at an entry whose
  header fields are truncated, \<open>parseREVLOG\<close> raises \<open>Not enough data.\<close>; it does
  not treat the truncation as the end of the stream.
\<close>

theorem C10_truncated_header:
  assumes "3 \<le> length data"
    and "reach (devices sparkDbc servohubDbc encoderDbc) data c st"
    and "c < length data"
    and "header_truncated data c"
  shows "parseREVLOG sparkDbc servohubDbc encoderDbc data = Inl NotEnoughData"
  using assms by (simp add: parseREVLOG_def reach_scan scan_truncated)

text \<open>
  C6, amended: when the scan stands at an entry whose header is complete and whose
  declared payload length exceeds the remaining bytes, the scan ends there without an
  exception, with the state reached so far, and the conversion returns what was written
  (or fails with \<open>No valid records found.\<close> when no entry was recognised before).
\<close>

theorem C6_payload_overrun:
  assumes "3 \<le> length data"
    and "reach (devices sparkDbc servohubDbc encoderDbc) data c st"
    and "c < length data"
    and "payload_overrun data c"
  shows "scan (devices sparkDbc servohubDbc encoderDbc) data 0 init_state = Inr st \<and>
         parseREVLOG sparkDbc servohubDbc encoderDbc data =
           (if recordsProcessed st then Inr (outputChunks st) else Inl NoValidRecords)"
  using assms by (simp add: parseREVLOG_def reach_scan scan_overrun)

lemma dispatch_other:
  "entryId \<noteq> 1 \<Longrightarrow> entryId \<noteq> 2 \<Longrightarrow> dispatch devs entryId payloadBytes st = Inr st"
  by (simp add: dispatch_def)

lemma scan_no_recognized:
  "walk data cursor = (ids, r) \<Longrightarrow> 1 \<notin> set ids \<Longrightarrow> 2 \<notin> set ids \<Longrightarrow>
     scan devs data cursor st = (case r of None \<Rightarrow> Inr st | Some e \<Rightarrow> Inl e)"
proof (induction data cursor arbitrary: ids r rule: walk.induct)
  case (1 data cursor)
  show ?case
  proof (cases "cursor < length data")
    case False
    with "1.prems" show ?thesis
      by (subst scan.simps) (simp add: walk.simps)
  next
    case True
    show ?thesis
    proof (cases "read_entry data cursor")
      case (Inl e)
      with True "1.prems" show ?thesis
        by (subst scan.simps) (auto simp: walk.simps scan_step_def)
    next
      case (Inr x)
      show ?thesis
      proof (cases x)
        case None
        with Inr True "1.prems" show ?thesis
          by (subst scan.simps) (auto simp: walk.simps scan_step_def)
      next
        case (Some t)
        obtain entryId payloadBytes c where t: "t = (entryId, payloadBytes, c)"
          by (cases t)
        obtain ids1 r1 where w: "walk data c = (ids1, r1)" by (cases "walk data c")
        from "1.prems"(1) True Inr Some t w
        have ids: "ids = entryId # ids1" and r: "r = r1"
          by (simp_all add: walk.simps [of data cursor])
        from ids "1.prems" have ne: "entryId \<noteq> 1" "entryId \<noteq> 2"
          and rest: "1 \<notin> set ids1" "2 \<notin> set ids1" by auto
        have "scan devs data c st = (case r1 of None \<Rightarrow> Inr st | Some e \<Rightarrow> Inl e)"
          using "1.IH" [OF True Inr Some t [symmetric] refl w rest] .
        moreover have "scan devs data cursor st = scan devs data c st"
          using True Inr Some t ne
          by (subst scan.simps) (simp add: scan_step_def dispatch_other)
        ultimately show ?thesis using r by simp
      qed
    qed
  qed
qed

text \<open>
  C5, amended: \<open>parseREVLOG\<close> fails with the input-validation error on every input
  shorter than 3 bytes; on an input of at least 3 bytes whose scan encounters no entry
  with id 1 or 2 it fails with \<open>No valid records found.\<close> when the framing ends without
  an exception, and with the framing's own exception (\<open>Not enough data.\<close>) otherwise.
\<close>

theorem C5_errors:
  "(length data < 3 \<longrightarrow>
      parseREVLOG sparkDbc servohubDbc encoderDbc data = Inl InputTooSmall) \<and>
   (3 \<le> length data \<and> walk data 0 = (ids, r) \<and> 1 \<notin> set ids \<and> 2 \<notin> set ids \<longrightarrow>
      parseREVLOG sparkDbc servohubDbc encoderDbc data =
        Inl (case r of None \<Rightarrow> NoValidRecords | Some e \<Rightarrow> e))"
proof (intro conjI impI)
  assume "length data < 3"
  then show "parseREVLOG sparkDbc servohubDbc encoderDbc data = Inl InputTooSmall"
    by (simp add: parseREVLOG_def)
next
  assume a: "3 \<le> length data \<and> walk data 0 = (ids, r) \<and> 1 \<notin> set ids \<and> 2 \<notin> set ids"
  then have "scan (devices sparkDbc servohubDbc encoderDbc) data 0 init_state =
      (case r of None \<Rightarrow> Inr init_state | Some e \<Rightarrow> Inl e)"
    using scan_no_recognized by blast
  with a show "parseREVLOG sparkDbc servohubDbc encoderDbc data =
        Inl (case r of None \<Rightarrow> NoValidRecords | Some e \<Rightarrow> e)"
    by (cases r) (simp_all add: parseREVLOG_def init_state_def)
qed

text \<open>Concrete runs of the framing.\<close>

lemma read_entry_skip: "read_entry [0, 3, 0, 0x0F, 1] 0 = Inr (Some (3, [], 3))"
  by code_simp

lemma scan_step_skip: "scan_step devs [0, 3, 0, 0x0F, 1] 0 st = Inr (Some (3, st))"
  by (simp add: scan_step_def read_entry_skip dispatch_def)

lemma scan_step_empty_firmware:
  "scan_step devs [0, 1, 0, 0, 2, 200] 0 st = Inr (Some (3, st\<lparr>recordsProcessed := True\<rparr>))"
  by (simp add: scan_step_def read_entry_def readVariableInt_def slice_def Let_def
      dispatch_def firmware_loop.simps)

text \<open>
  C10, as stated, fails: in the 2-byte input \<open>[3, 1]\<close> the control byte declares a 4-byte
  entry id, which extends past the end, and the error is the input-validation error.
\<close>

theorem C10_counterexample:
  "header_truncated [3, 1] 0 \<and>
   parseREVLOG new_Dbc new_Dbc new_Dbc [3, 1] = Inl InputTooSmall"
  by code_simp

theorem C10_truncated_header_witness:
  "parseREVLOG new_Dbc new_Dbc new_Dbc [0x0F, 0, 0] = Inl NotEnoughData \<and>
   parseREVLOG new_Dbc new_Dbc new_Dbc [0, 3, 0, 0x0F, 1] = Inl NotEnoughData"
proof -
  have t0: "header_truncated [0x0F, 0, 0] 0" by code_simp
  have t3: "header_truncated [0, 3, 0, 0x0F, 1] 3" by code_simp
  have r3: "reach (devices new_Dbc new_Dbc new_Dbc) [0, 3, 0, 0x0F, 1] 3 init_state"
    by (rule reach_next [OF reach_start _ scan_step_skip]) simp
  show ?thesis
    using C10_truncated_header [OF _ reach_start _ t0, of new_Dbc new_Dbc new_Dbc]
      C10_truncated_header [OF _ r3 _ t3]
    by simp
qed

text \<open>
  C6, as stated, fails in its second half: the capture \<open>[0, 1, 0]\<close> (one empty firmware
  block) converts, and the same capture followed by one garbage byte, or cut off right
  after the next control byte, makes the conversion raise \<open>Not enough data.\<close>.
\<close>

theorem C6_counterexample:
  "parseREVLOG new_Dbc new_Dbc new_Dbc [0, 1, 0] = Inr [FileHeader ''WPILOG'' 1 0 []] \<and>
   parseREVLOG new_Dbc new_Dbc new_Dbc [0, 1, 0, 0xAA] = Inl NotEnoughData \<and>
   parseREVLOG new_Dbc new_Dbc new_Dbc [0, 1, 0, 0] = Inl NotEnoughData"
  by code_simp

theorem C6_payload_overrun_witness:
  "parseREVLOG new_Dbc new_Dbc new_Dbc [0, 1, 0, 0, 2, 200] = Inr [FileHeader ''WPILOG'' 1 0 []] \<and>
   parseREVLOG new_Dbc new_Dbc new_Dbc [0, 2, 200] = Inl NoValidRecords"
proof -
  have o0: "payload_overrun [0, 2, 200] 0" by code_simp
  have o3: "payload_overrun [0, 1, 0, 0, 2, 200] 3" by code_simp
  have r3: "reach (devices new_Dbc new_Dbc new_Dbc) [0, 1, 0, 0, 2, 200] 3
              (init_state\<lparr>recordsProcessed := True\<rparr>)"
    by (rule reach_next [OF reach_start _ scan_step_empty_firmware]) simp
  show ?thesis
    using C6_payload_overrun [OF _ reach_start _ o0, of new_Dbc new_Dbc new_Dbc]
      C6_payload_overrun [OF _ r3 _ o3]
    by (simp add: init_state_def)
qed

text \<open>
  C5, as stated, fails in its second half: the 3-byte input \<open>[15, 0, 0]\<close> has no entry
  with id 1 or 2 (the scan frames no entry at all), and the error is \<open>Not enough data.\<close>,
  not \<open>No valid records found.\<close>.
\<close>

theorem C5_counterexample:
  "3 \<le> length [0x0F, 0, 0 :: byte] \<and>
   walk [0x0F, 0, 0] 0 = ([], Some NotEnoughData) \<and>
   parseREVLOG new_Dbc new_Dbc new_Dbc [0x0F, 0, 0] = Inl NotEnoughData"
  by code_simp

theorem C5_errors_witness:
  "parseREVLOG new_Dbc new_Dbc new_Dbc [0, 3] = Inl InputTooSmall \<and>
   parseREVLOG new_Dbc new_Dbc new_Dbc [0, 3, 0, 4, 7, 1, 0, 9] = Inl NoValidRecords \<and>
   parseREVLOG new_Dbc new_Dbc new_Dbc [0, 3, 0, 0x0F, 1] = Inl NotEnoughData"
proof -
  have w1: "walk [0, 3, 0, 4, 7, 1, 0, 9] 0 = ([3, 7], None)" by code_simp
  have w2: "walk [0, 3, 0, 0x0F, 1] 0 = ([3], Some NotEnoughData)" by code_simp
  show ?thesis
    using C5_errors [of "[0, 3]" new_Dbc new_Dbc new_Dbc]
      C5_errors [of "[0, 3, 0, 4, 7, 1, 0, 9]" new_Dbc new_Dbc new_Dbc "[3, 7]" None]
      C5_errors [of "[0, 3, 0, 0x0F, 1]" new_Dbc new_Dbc new_Dbc "[3]" "Some NotEnoughData"]
    by (simp add: w1 w2)
qed

section \<open>Decoded physical values\<close>

text \<open>
  A decoded value lies within the declared range of its signal. A bigint is compared with
  the bounds by its mathematical value, as JavaScript compares a bigint with a number.
\<close>

definition in_range :: "Signal \<Rightarrow> jsvalue \<Rightarrow> bool" where
  "in_range s v =
     (case v of
        VNum x \<Rightarrow> num_le (sig_min s) x \<and> num_le x (sig_max s)
      | VBig i \<Rightarrow> num_le (sig_min s) (Fin (of_int i)) \<and> num_le (Fin (of_int i)) (sig_max s)
      | _ \<Rightarrow> False)"



lemma set_update_cases:
  "(a, b) \<in> set (AList.update k v al) \<Longrightarrow> (a, b) = (k, v) \<or> (a, b) \<in> set al"
  by (induction al) (auto split: if_splits)

lemma decode_signal_shape:
  "decode_signal data buf s = Inr b \<Longrightarrow> bs_signal b = s \<and> (\<exists>p. bs_value b = clamp s p)"
  by (auto simp: decode_signal_def Let_def split: if_splits sum.splits)

lemma decode_signals_all:
  "decode_signals data buf ss acc = Inr bs \<Longrightarrow>
   (\<And>n b. (n, b) \<in> set acc \<Longrightarrow> P b) \<Longrightarrow>
   (\<And>s b. s \<in> set ss \<Longrightarrow> decode_signal data buf s = Inr b \<Longrightarrow> P b) \<Longrightarrow>
   (n, b) \<in> set bs \<Longrightarrow> P b"
proof (induction ss arbitrary: acc)
  case Nil
  then show ?case by simp
next
  case (Cons s ss)
  from Cons.prems(1) obtain b0 where b0: "decode_signal data buf s = Inr b0"
    and rest: "decode_signals data buf ss (AList.update (sig_name s) b0 acc) = Inr bs"
    by (auto split: sum.splits)
  show ?case
  proof (rule Cons.IH [OF rest _ _ Cons.prems(4)])
    fix n' b' assume "(n', b') \<in> set (AList.update (sig_name s) b0 acc)"
    then have "(n', b') = (sig_name s, b0) \<or> (n', b') \<in> set acc"
      by (rule set_update_cases)
    then show "P b'" using Cons.prems(2,3) b0 by auto
  next
    fix s' b' assume "s' \<in> set ss" "decode_signal data buf s' = Inr b'"
    then show "P b'" using Cons.prems(3) [of s' b'] by simp
  qed
qed

lemma clamp_num:
  assumes "num_le lo hi"
    and "(if num_lt hi (if num_lt y lo then lo else y) then hi
          else (if num_lt y lo then lo else y)) = x"
    and "x \<noteq> NaN"
  shows "num_le lo x \<and> num_le x hi"
  using assms by (cases y; cases lo; cases hi) (auto simp: num_le_def split: if_splits)

lemma clamp_in_range:
  assumes "\<not> num_eq (sig_min s) (Fin 0) \<or> \<not> num_eq (sig_max s) (Fin 0)"
    and "num_le (sig_min s) (sig_max s)"
    and "clamp s p = VNum x" and "x \<noteq> NaN"
  shows "in_range s (VNum x)"
proof (cases p)
  case (VNum y)
  with assms(1,3) have "(if num_lt (sig_max s) (if num_lt y (sig_min s) then sig_min s else y)
      then sig_max s else (if num_lt y (sig_min s) then sig_min s else y)) = x"
    by (auto simp: clamp_def Let_def)
  from clamp_num [OF assms(2) this assms(4)] show ?thesis
    by (simp add: in_range_def)
qed (use assms in \<open>auto simp: clamp_def\<close>)

text \<open>
  C2, amended: for every signal whose declared min or max is non-zero and whose min is at
  most its max, and for every frame, a decoded physical value that is a number other than
  NaN lies within [min, max]. (The physical value of a little-endian integer signal with
  factor 1 and offset 0 is a bigint and is not clamped.)
\<close>

theorem C2_clamped:
  assumes "decode database frame_id frame_data = Inr (Some d)"
    and "(n, b) \<in> set (boundSignals d)"
    and "\<not> num_eq (sig_min (bs_signal b)) (Fin 0) \<or> \<not> num_eq (sig_max (bs_signal b)) (Fin 0)"
    and "num_le (sig_min (bs_signal b)) (sig_max (bs_signal b))"
    and "bs_value b = VNum x" and "x \<noteq> NaN"
  shows "in_range (bs_signal b) (bs_value b)"
proof -
  from assms(1) obtain data buf ss where
    ds: "decode_signals data buf ss [] = Inr (boundSignals d)"
    by (auto simp: decode_def Let_def split: option.splits sum.splits)
  have "\<exists>p. bs_value b = clamp (bs_signal b) p"
    by (rule decode_signals_all [OF ds _ _ assms(2)]) (auto dest: decode_signal_shape)
  then obtain p where "clamp (bs_signal b) p = VNum x" using assms(5) by auto
  from clamp_in_range [OF assms(3,4) this assms(6)] assms(5) show ?thesis by simp
qed













text \<open>Evaluation of the decoder on concrete frames.\<close>

lemma le_nat_zeros: "le_nat (replicate k 0) = 0"
  by (induction k) simp_all

lemma bitlen_numeral: "bitlen (numeral k) = Suc (bitlen (numeral k div 2))"
  by (subst bitlen.simps) simp

lemma bitlen_0: "bitlen 0 = 0"
  by (simp add: bitlen.simps)

lemma bitlen_1: "bitlen (Suc 0) = Suc 0"
  by (simp add: bitlen.simps)

lemma round_half_even_numeral: "round_half_even (numeral k) = numeral k"
  by (simp add: round_half_even_def)

lemma fround_10: "fround 10 = Fin 10"
proof -
  have "ilog2 10 = 3" by (simp add: ilog2_def bitlen_numeral bitlen_0 bitlen_1)
  then show ?thesis
    unfolding fround_def Let_def by (simp add: pow2_def round_half_even_numeral)
qed

lemma fround_40: "fround 40 = Fin 40"
proof -
  have "ilog2 40 = 5" by (simp add: ilog2_def bitlen_numeral bitlen_0 bitlen_1)
  then show ?thesis
    unfolding fround_def Let_def by (simp add: pow2_def round_half_even_numeral)
qed

lemma fround_50: "fround 50 = Fin 50"
proof -
  have "ilog2 50 = 5" by (simp add: ilog2_def bitlen_numeral bitlen_0 bitlen_1)
  then show ?thesis
    unfolding fround_def Let_def by (simp add: pow2_def round_half_even_numeral)
qed

lemma fround_200: "fround 200 = Fin 200"
proof -
  have "ilog2 200 = 7" by (simp add: ilog2_def bitlen_numeral bitlen_0 bitlen_1)
  then show ?thesis
    unfolding fround_def Let_def by (simp add: pow2_def round_half_even_numeral)
qed

lemmas decode_eval =
  decode_def load_def new_Dbc_def put_signal_def find_signal_def messagesById_get_def
  alloc_def slice_def decode_signal_def rawBig_def big_shl_def clamp_def Let_def
  Number_of_big_def le_nat_zeros readFloatLE_def readDoubleLE_def

definition percent_signal :: Signal where
  "percent_signal =
     \<lparr>sig_name = ''S'', startBit = 0, sig_length = 8, isLittleEndian = True, isSigned = False,
      factor = Fin 1, offset = Fin 0, sig_min = Fin 0, sig_max = Fin 100, sig_unit = [],
      description = None, dataType = DInt\<rparr>"

text \<open>
  C2, as stated, fails: an 8-bit little-endian integer signal with factor 1, offset 0 and
  range [0, 100] decodes the byte 200 to the physical value 200, outside the range.
\<close>

theorem C2_counterexample:
  "decode (Some (load new_Dbc one_message_lines)) 100 [200] =
     Inr (Some \<lparr>dec_id = 100, dec_name = ''M'',
                boundSignals = [(''S'', \<lparr>bs_signal = percent_signal, bs_value = VBig 200,
                                          bs_rawValue = VBig 200\<rparr>)]\<rparr>) \<and>
   sig_max percent_signal = Fin 100 \<and>
   \<not> in_range percent_signal (VBig 200)"
  by (simp add: decode_eval one_message_lines_def percent_signal_def in_range_def num_le_def)

definition volt_signal :: Signal where
  "volt_signal =
     \<lparr>sig_name = ''V'', startBit = 0, sig_length = 8, isLittleEndian = True, isSigned = False,
      factor = Fin (1 / 4), offset = Fin 0, sig_min = Fin 0, sig_max = Fin 20, sig_unit = ''V'',
      description = None, dataType = DInt\<rparr>"

definition temp_signal :: Signal where
  "temp_signal =
     \<lparr>sig_name = ''T'', startBit = 8, sig_length = 32, isLittleEndian = True, isSigned = False,
      factor = Fin 1, offset = Fin 0, sig_min = Fin (- 1), sig_max = Fin 2, sig_unit = ''C'',
      description = None, dataType = DFloat\<rparr>"

definition scaled_lines :: "dbc_line list" where
  "scaled_lines =
     [LineBO 100 ''M'' 8 ''X'',
      LineSG ''V'' 0 8 True False (Fin (1 / 4)) (Fin 0) (Fin 0) (Fin 20) ''V'',
      LineSG ''T'' 8 32 True False (Fin 1) (Fin 0) (Fin (- 1)) (Fin 2) ''C'',
      LineValType 100 ''T'' ''1'']"

lemma float_bits_2_5: "float_of_bits 1075838976 = Fin (5 / 2)"
  by (simp add: float_of_bits_def pow2_def Let_def)

lemma decode_scaled_200:
  "decode (Some (load new_Dbc scaled_lines)) 100 [200, 0, 0, 0x20, 0x40] =
     Inr (Some \<lparr>dec_id = 100, dec_name = ''M'',
                boundSignals =
                  [(''V'', \<lparr>bs_signal = volt_signal, bs_value = VNum (Fin 20),
                            bs_rawValue = VBig 200\<rparr>),
                   (''T'', \<lparr>bs_signal = temp_signal, bs_value = VNum (Fin 2),
                            bs_rawValue = VNum (Fin (5 / 2))\<rparr>)]\<rparr>)"
  by (simp add: decode_eval scaled_lines_def volt_signal_def temp_signal_def fround_200
      fround_50 float_bits_2_5)

lemma decode_scaled_40:
  "decode (Some (load new_Dbc scaled_lines)) 100 [40, 0, 0, 0x20, 0x40] =
     Inr (Some \<lparr>dec_id = 100, dec_name = ''M'',
                boundSignals =
                  [(''V'', \<lparr>bs_signal = volt_signal, bs_value = VNum (Fin 10),
                            bs_rawValue = VBig 40\<rparr>),
                   (''T'', \<lparr>bs_signal = temp_signal, bs_value = VNum (Fin 2),
                            bs_rawValue = VNum (Fin (5 / 2))\<rparr>)]\<rparr>)"
  by (simp add: decode_eval scaled_lines_def volt_signal_def temp_signal_def fround_40
      fround_10 float_bits_2_5)

theorem C2_clamped_witness:
  "in_range volt_signal (VNum (Fin 20)) \<and> in_range volt_signal (VNum (Fin 10)) \<and>
   in_range temp_signal (VNum (Fin 2))"
proof -
  have a: "in_range volt_signal (VNum (Fin 20))"
    using C2_clamped [OF decode_scaled_200, of "''V''"
        "\<lparr>bs_signal = volt_signal, bs_value = VNum (Fin 20), bs_rawValue = VBig 200\<rparr>" "Fin 20"]
    by (simp add: volt_signal_def num_le_def)
  have b: "in_range volt_signal (VNum (Fin 10))"
    using C2_clamped [OF decode_scaled_40, of "''V''"
        "\<lparr>bs_signal = volt_signal, bs_value = VNum (Fin 10), bs_rawValue = VBig 40\<rparr>" "Fin 10"]
    by (simp add: volt_signal_def num_le_def)
  have c: "in_range temp_signal (VNum (Fin 2))"
    using C2_clamped [OF decode_scaled_200, of "''T''"
        "\<lparr>bs_signal = temp_signal, bs_value = VNum (Fin 2), bs_rawValue = VNum (Fin (5 / 2))\<rparr>"
        "Fin 2"]
    by (simp add: temp_signal_def num_le_def)
  from a b c show ?thesis by simp
qed







section \<open>Firmware records\<close>

lemma devices_servo:
  "map_of (devices sparkDbc servohubDbc encoderDbc) 12 =
     Some (createDeviceMap servohubDbc ''REV/ServoHub-'' ''GET_VERSION'' ''STATUS_'' None)"
  by (simp add: devices_def update_conv')

lemma default_version_2_5_42:
  "parseFirmwareVersion
     (createDeviceMap d pre fw per None) decoded [2, 5, 0, 42, 0, 0] = ''2.5.42''"
  by (simp add: parseFirmwareVersion_def createDeviceMap_def dec_string.simps)

text \<open>
  The sub-record of the claim: device type 12 in the CAN id, data bytes
  \<open>[2, 5, 0, 42, 0, 0]\<close>, a servo hub catalog that defines \<open>GET_VERSION\<close> with a
  non-zero id, and a frame that decodes. The record declares the stream when its name is
  new, and writes the version to a stream declared as string.
\<close>

lemma firmware_record_servo:
  assumes "messageId = readUInt32LE payloadBytes pc"
    and "shr_and messageId 24 0x1f = 12"
    and "slice payloadBytes (pc + 4) (pc + 10) = [2, 5, 0, 42, 0, 0]"
    and "messages_get servohubDbc ''GET_VERSION'' = Some fw"
    and "msg_id fw \<noteq> 0"
    and "decode (Some servohubDbc) (msg_id fw) ([2, 5, 0, 42, 0, 0] @ alloc 8) = Inr (Some decoded)"
    and "name = ''REV/ServoHub-'' @ dec_string (shr_and messageId 0 0x3f) @ ''/FIRMWARE''"
  shows "firmware_record (devices sparkDbc servohubDbc encoderDbc) payloadBytes pc st =
      (if map_of (RECORDS st) name = None
       then (case writeControlRecord (NEXT_RECORD_ID st) name ''string'' []
                    (st\<lparr>NEXT_RECORD_ID := NEXT_RECORD_ID st + 1\<rparr>) of
               Inl e \<Rightarrow> Inl e
             | Inr st1 \<Rightarrow> Inr (writeRecord name (VStr (js_string ''2.5.42'')) 0 st1))
       else Inr (writeRecord name (VStr (js_string ''2.5.42'')) 0 st))"
proof -
  let ?dev = "createDeviceMap servohubDbc ''REV/ServoHub-'' ''GET_VERSION'' ''STATUS_'' None"
  let ?devs = "devices sparkDbc servohubDbc encoderDbc"
  let ?canData = "slice payloadBytes (pc + 4) (pc + 10)"
  have fid: "firmwareFrameId ?dev = Some (msg_id fw)"
    using assms(4) by (simp add: createDeviceMap_def)
  have dev: "map_of ?devs (shr_and (readUInt32LE payloadBytes pc) 24 0x1f) = Some ?dev"
    using assms(1,2) devices_servo by simp
  have dec: "decode (canDecoder ?dev) (msg_id fw) (?canData @ alloc 8) = Inr (Some decoded)"
    using assms(3,6) by (simp add: createDeviceMap_def)
  have nm: "prefix ?dev @ dec_string (shr_and (readUInt32LE payloadBytes pc) 0 0x3f) @ ''/FIRMWARE''
              = name"
    using assms(1,7) by (simp add: createDeviceMap_def)
  have ver: "parseFirmwareVersion ?dev (boundSignals decoded) ?canData = ''2.5.42''"
    using assms(3) default_version_2_5_42 by simp
  have nz: "(msg_id fw = 0) = False" using assms(5) by simp
  show ?thesis
    by (simp only: firmware_record_def Let_def dev option.case fid nz if_False dec sum.case
        nm ver)
qed

lemma firmware_loop_step:
  "pc + 10 \<le> length payloadBytes \<Longrightarrow> firmware_record devs payloadBytes pc st = Inr st1 \<Longrightarrow>
     firmware_loop devs payloadBytes pc st = firmware_loop devs payloadBytes (pc + 10) st1"
  by (subst firmware_loop.simps) simp

lemma firmware_loop_end:
  "\<not> pc + 10 \<le> length payloadBytes \<Longrightarrow> firmware_loop devs payloadBytes pc st = Inr st"
  by (subst firmware_loop.simps) simp


text \<open>A small servo hub catalog: the firmware message and one periodic message.\<close>

definition servo_lines :: "dbc_line list" where
  "servo_lines =
     [LineBO 2349147648 ''GET_VERSION'' 8 ''ServoHub'',
      LineSG ''MAJOR'' 0 8 True False (Fin 1) (Fin 0) (Fin 0) (Fin 255) [],
      LineSG ''MINOR'' 8 8 True False (Fin 1) (Fin 0) (Fin 0) (Fin 255) [],
      LineSG ''BUILD'' 23 16 False False (Fin 1) (Fin 0) (Fin 0) (Fin 65535) [],
      LineBO 2349144064 ''STATUS_0'' 8 ''ServoHub'',
      LineSG ''HARD_FAULT'' 16 1 True False (Fin 1) (Fin 0) (Fin 0) (Fin 1) [],
      LineSG ''COUNT'' 24 8 True True (Fin 1) (Fin 0) (Fin 0) (Fin 0) [],
      LineComment 2349144064 ''COUNT'' ''Event count'']"

definition servo_version_message :: Message where
  "servo_version_message =
     \<lparr>msg_id = 2349147648, msg_name = ''GET_VERSION'', dlc = 8, sender = ''ServoHub'',
      signals =
        [(''MAJOR'', \<lparr>sig_name = ''MAJOR'', startBit = 0, sig_length = 8, isLittleEndian = True,
            isSigned = False, factor = Fin 1, offset = Fin 0, sig_min = Fin 0, sig_max = Fin 255,
            sig_unit = [], description = None, dataType = DInt\<rparr>),
         (''MINOR'', \<lparr>sig_name = ''MINOR'', startBit = 8, sig_length = 8, isLittleEndian = True,
            isSigned = False, factor = Fin 1, offset = Fin 0, sig_min = Fin 0, sig_max = Fin 255,
            sig_unit = [], description = None, dataType = DInt\<rparr>),
         (''BUILD'', \<lparr>sig_name = ''BUILD'', startBit = 23, sig_length = 16, isLittleEndian = False,
            isSigned = False, factor = Fin 1, offset = Fin 0, sig_min = Fin 0, sig_max = Fin 65535,
            sig_unit = [], description = None, dataType = DInt\<rparr>)]\<rparr>"





lemma scan_two_blocks:
  "0 < length data \<Longrightarrow> read_entry data 0 = Inr (Some (i1, p1, c1)) \<Longrightarrow>
   dispatch devs i1 p1 init_state = Inr st1 \<Longrightarrow> c1 < length data \<Longrightarrow>
   read_entry data c1 = Inr (Some (i2, p2, length data)) \<Longrightarrow>
   dispatch devs i2 p2 st1 = Inr st2 \<Longrightarrow> scan devs data 0 init_state = Inr st2"
  by (simp add: scan.simps scan_step_def)

lemma servo_version_get:
  "messages_get (load new_Dbc servo_lines) ''GET_VERSION'' = Some servo_version_message"
  by (simp add: servo_lines_def servo_version_message_def load_def new_Dbc_def put_signal_def
      find_signal_def messages_get_def)

lemma servo_version_decodes:
  "\<exists>decoded. decode (Some (load new_Dbc servo_lines)) 2349147648 ([2, 5, 0, 42, 0, 0] @ alloc 8)
     = Inr (Some decoded)"
  by (simp add: servo_lines_def load_def new_Dbc_def put_signal_def find_signal_def
      decode_def messagesById_get_def alloc_def slice_def decode_signal_def rawBig_def
      big_shl_def clamp_def Let_def le_nat_zeros)









section \<open>Output stream identifiers\<close>

text \<open>
  The control records of an output, in the order they were emitted: their identifiers and
  their names.
\<close>

fun control_ids :: "out_record list \<Rightarrow> nat list" where
  "control_ids [] = []"
| "control_ids (Control i n t m # rs) = i # control_ids rs"
| "control_ids (r # rs) = control_ids rs"

fun control_names :: "out_record list \<Rightarrow> string list" where
  "control_names [] = []"
| "control_names (Control i n t m # rs) = n # control_names rs"
| "control_names (r # rs) = control_names rs"

text \<open>
  Every data record comes after a control record with its identifier, whose declared type
  is the type of the payload.
\<close>

definition declared_before :: "out_record list \<Rightarrow> bool" where
  "declared_before out =
     (\<forall>j < length out. \<forall>i p ts. out ! j = Data i p ts \<longrightarrow>
        (\<exists>k < j. \<exists>n m. out ! k = Control i n (payload_type p) m))"

text \<open>
  Every control record is directly followed by a data record with its identifier: a
  stream is declared when its name is first seen, just before its first value.
\<close>

definition data_follows :: "out_record list \<Rightarrow> bool" where
  "data_follows out =
     (\<forall>k < length out. \<forall>i n t m. out ! k = Control i n t m \<longrightarrow>
        Suc k < length out \<and> (\<exists>p ts. out ! Suc k = Data i p ts))"

text \<open>
  The invariant of the writer state. The \<open>k\<close>-th control record has identifier \<open>k\<close>
  (the counter is one ahead, until \<open>writeUInt32LE\<close> refuses identifiers from
  \<open>2^32\<close> on); no name is declared twice; the registry \<open>RECORDS\<close> maps a name to
  the identifier and type of the control record emitted for that name, and to nothing else.
\<close>

definition stream_inv :: "wstate \<Rightarrow> bool" where
  "stream_inv st =
     (1 \<le> NEXT_RECORD_ID st \<and>
      control_ids (outputChunks st) = [1 ..< min (NEXT_RECORD_ID st) (2 ^ 32)] \<and>
      distinct (control_names (outputChunks st)) \<and>
      (\<forall>n i t. (map_of (RECORDS st) n = Some (i, t)) =
                 (\<exists>m. Control i n t m \<in> set (outputChunks st))) \<and>
      declared_before (outputChunks st) \<and>
      data_follows (outputChunks st))"

lemma control_ids_append: "control_ids (xs @ ys) = control_ids xs @ control_ids ys"
  by (induction xs rule: control_ids.induct) simp_all

lemma control_names_append: "control_names (xs @ ys) = control_names xs @ control_names ys"
  by (induction xs rule: control_names.induct) simp_all

lemma control_names_mem: "Control i n t m \<in> set out \<Longrightarrow> n \<in> set (control_names out)"
  by (induction out rule: control_names.induct) auto

lemma control_names_set: "n \<in> set (control_names out) \<Longrightarrow> \<exists>i t m. Control i n t m \<in> set out"
  by (induction out rule: control_names.induct) auto

lemma declared_before_data:
  assumes "declared_before out" and "Control i n (payload_type p) m \<in> set out"
  shows "declared_before (out @ [Data i p ts])"
proof -
  from assms(2) obtain k where k: "k < length out" "out ! k = Control i n (payload_type p) m"
    by (auto simp: in_set_conv_nth)
  show ?thesis
    unfolding declared_before_def
  proof (intro allI impI)
    fix j i' p' ts'
    assume j: "j < length (out @ [Data i p ts])" and d: "(out @ [Data i p ts]) ! j = Data i' p' ts'"
    show "\<exists>k<j. \<exists>n' m'. (out @ [Data i p ts]) ! k = Control i' n' (payload_type p') m'"
    proof (cases "j < length out")
      case True
      with d have "out ! j = Data i' p' ts'" by (simp add: nth_append)
      with assms(1) True obtain k' n' m' where "k' < j" "out ! k' = Control i' n' (payload_type p') m'"
        unfolding declared_before_def by blast
      with True show ?thesis by (auto simp: nth_append intro!: exI [of _ k'])
    next
      case False
      with j have "j = length out" by simp
      with d have "i' = i" "p' = p" by simp_all
      with k \<open>j = length out\<close> show ?thesis by (auto simp: nth_append intro!: exI [of _ k])
    qed
  qed
qed

lemma declared_before_control:
  assumes "declared_before out"
  shows "declared_before (out @ [Control i n t m])"
  unfolding declared_before_def
proof (intro allI impI)
  fix j i' p' ts'
  assume j: "j < length (out @ [Control i n t m])"
    and d: "(out @ [Control i n t m]) ! j = Data i' p' ts'"
  then have lt: "j < length out" by (cases "j < length out") (auto simp: nth_append)
  with d have "out ! j = Data i' p' ts'" by (simp add: nth_append)
  with assms lt obtain k' n' m' where "k' < j" "out ! k' = Control i' n' (payload_type p') m'"
    unfolding declared_before_def by blast
  with lt show "\<exists>k<j. \<exists>n' m'. (out @ [Control i n t m]) ! k = Control i' n' (payload_type p') m'"
    by (auto simp: nth_append intro!: exI [of _ k'])
qed

lemma data_follows_data:
  assumes "data_follows out"
  shows "data_follows (out @ [Data i p ts])"
  unfolding data_follows_def
proof (intro allI impI)
  fix k i' n t m
  assume k: "k < length (out @ [Data i p ts])"
    and c: "(out @ [Data i p ts]) ! k = Control i' n t m"
  then have lt: "k < length out" by (cases "k < length out") (auto simp: nth_append)
  with c have "out ! k = Control i' n t m" by (simp add: nth_append)
  with assms lt have "Suc k < length out" "\<exists>p ts. out ! Suc k = Data i' p ts"
    unfolding data_follows_def by blast+
  then show "Suc k < length (out @ [Data i p ts]) \<and>
      (\<exists>p' ts'. (out @ [Data i p ts]) ! Suc k = Data i' p' ts')"
    by (auto simp: nth_append)
qed

lemma data_follows_control_data:
  assumes "data_follows out"
  shows "data_follows (out @ [Control i n t m, Data i p ts])"
  unfolding data_follows_def
proof (intro allI impI)
  fix k i' n' t' m'
  assume k: "k < length (out @ [Control i n t m, Data i p ts])"
    and c: "(out @ [Control i n t m, Data i p ts]) ! k = Control i' n' t' m'"
  show "Suc k < length (out @ [Control i n t m, Data i p ts]) \<and>
      (\<exists>p' ts'. (out @ [Control i n t m, Data i p ts]) ! Suc k = Data i' p' ts')"
  proof (cases "k < length out")
    case True
    with c have "out ! k = Control i' n' t' m'" by (simp add: nth_append)
    with assms True have "Suc k < length out" "\<exists>p ts. out ! Suc k = Data i' p ts"
      unfolding data_follows_def by blast+
    then show ?thesis by (auto simp: nth_append)
  next
    case False
    with k have "k = length out \<or> k = Suc (length out)" by auto
    with c have "k = length out" "i' = i" by (auto simp: nth_append)
    then show ?thesis by (simp add: nth_append)
  qed
qed

text \<open>The types for which \<open>writeRecord\<close> has a case.\<close>

definition known_type :: "string \<Rightarrow> bool" where
  "known_type t = (t \<in> {''boolean'', ''int64'', ''float'', ''double'', ''string''})"

lemma known_type_signal: "known_type (getWpilogTypeFromSignal s)"
  by (simp add: getWpilogTypeFromSignal_def known_type_def Let_def)

lemma writeRecord_undeclared:
  "map_of (RECORDS st) name = None \<Longrightarrow> writeRecord name v ts st = st"
  by (simp add: writeRecord_def)

lemma writeRecord_unknown:
  "map_of (RECORDS st) name = Some (i, t) \<Longrightarrow> \<not> known_type t \<Longrightarrow>
     writeRecord name v ts st = st"
  by (simp add: writeRecord_def known_type_def)

lemma writeRecord_known:
  assumes "map_of (RECORDS st) name = Some (i, t)" and "known_type t"
  shows "\<exists>p. payload_type p = t \<and>
           writeRecord name v ts st = st\<lparr>outputChunks := outputChunks st @ [Data i p (ts * 1000)]\<rparr>"
proof -
  from assms(2) consider "t = ''boolean''" | "t = ''int64''" | "t = ''float''"
    | "t = ''double''" | "t = ''string''"
    unfolding known_type_def by blast
  then show ?thesis
  proof cases
    case 1
    with assms(1) have "writeRecord name v ts st =
        st\<lparr>outputChunks := outputChunks st @ [Data i (PBoolean (truthy v)) (ts * 1000)]\<rparr>"
      by (simp add: writeRecord_def)
    with 1 show ?thesis by (intro exI [of _ "PBoolean (truthy v)"]) simp
  next
    case 2
    with assms(1) have "writeRecord name v ts st =
        st\<lparr>outputChunks := outputChunks st @
          [Data i (PInt64 (case try_int64 v of Some b \<Rightarrow> b | None \<Rightarrow> 0)) (ts * 1000)]\<rparr>"
      by (simp add: writeRecord_def)
    with 2 show ?thesis
      by (intro exI [of _ "PInt64 (case try_int64 v of Some b \<Rightarrow> b | None \<Rightarrow> 0)"]) simp
  next
    case 3
    with assms(1) have "writeRecord name v ts st =
        st\<lparr>outputChunks := outputChunks st @ [Data i (PFloat v) (ts * 1000)]\<rparr>"
      by (simp add: writeRecord_def)
    with 3 show ?thesis by (intro exI [of _ "PFloat v"]) simp
  next
    case 4
    with assms(1) have "writeRecord name v ts st =
        st\<lparr>outputChunks := outputChunks st @ [Data i (PDouble v) (ts * 1000)]\<rparr>"
      by (simp add: writeRecord_def)
    with 4 show ?thesis by (intro exI [of _ "PDouble v"]) simp
  next
    case 5
    with assms(1) have "writeRecord name v ts st =
        st\<lparr>outputChunks := outputChunks st @ [Data i (PString v) (ts * 1000)]\<rparr>"
      by (simp add: writeRecord_def)
    with 5 show ?thesis by (intro exI [of _ "PString v"]) simp
  qed
qed

lemma writeRecord_cases:
  "writeRecord name v ts st = st \<or>
   (\<exists>i t p. map_of (RECORDS st) name = Some (i, t) \<and> payload_type p = t \<and>
      writeRecord name v ts st = st\<lparr>outputChunks := outputChunks st @ [Data i p (ts * 1000)]\<rparr>)"
proof (cases "map_of (RECORDS st) name")
  case None
  then show ?thesis by (simp add: writeRecord_undeclared)
next
  case (Some it)
  obtain i t where it: "it = (i, t)" by (cases it)
  show ?thesis
  proof (cases "known_type t")
    case False
    with Some it show ?thesis by (simp add: writeRecord_unknown)
  next
    case True
    from writeRecord_known [OF _ True, of st name i v ts] Some it show ?thesis by blast
  qed
qed

lemma stream_inv_recordsProcessed [simp]:
  "stream_inv (st\<lparr>recordsProcessed := b\<rparr>) = stream_inv st"
  by (simp add: stream_inv_def)

lemma stream_inv_data:
  assumes "stream_inv st" and "map_of (RECORDS st) name = Some (i, payload_type p)"
  shows "stream_inv (st\<lparr>outputChunks := outputChunks st @ [Data i p ts]\<rparr>)"
proof -
  from assms obtain m where c: "Control i name (payload_type p) m \<in> set (outputChunks st)"
    unfolding stream_inv_def by blast
  from assms(1) have "declared_before (outputChunks st)" "data_follows (outputChunks st)"
    unfolding stream_inv_def by blast+
  with c have "declared_before (outputChunks st @ [Data i p ts])"
    "data_follows (outputChunks st @ [Data i p ts])"
    by (auto intro: declared_before_data data_follows_data)
  with assms(1) show ?thesis
    unfolding stream_inv_def by (simp add: control_ids_append control_names_append)
qed

lemma stream_inv_write:
  assumes "stream_inv st"
  shows "stream_inv (writeRecord name v ts st)"
  using writeRecord_cases [of name v ts st] assms
  by (auto intro: stream_inv_data)

lemma stream_inv_declare:
  assumes inv: "stream_inv st"
    and fresh: "map_of (RECORDS st) name = None"
    and ok: "NEXT_RECORD_ID st \<le> 0xFFFFFFFF"
    and kt: "known_type kind"
  shows "\<exists>st1. writeControlRecord (NEXT_RECORD_ID st) name kind meta
                  (st\<lparr>NEXT_RECORD_ID := NEXT_RECORD_ID st + 1\<rparr>) = Inr st1 \<and>
               stream_inv (writeRecord name v ts st1)"
proof -
  let ?n = "NEXT_RECORD_ID st"
  let ?out = "outputChunks st"
  define st1 where "st1 = st\<lparr>NEXT_RECORD_ID := ?n + 1,
      outputChunks := ?out @ [Control ?n name kind meta],
      RECORDS := AList.update name (?n, kind) (RECORDS st)\<rparr>"
  have w: "writeControlRecord ?n name kind meta (st\<lparr>NEXT_RECORD_ID := ?n + 1\<rparr>) = Inr st1"
    using ok by (simp add: writeControlRecord_def st1_def)
  have look: "map_of (RECORDS st1) name = Some (?n, kind)"
    by (simp add: st1_def update_conv')
  from writeRecord_known [OF look kt] obtain p where p: "payload_type p = kind"
    and wr: "writeRecord name v ts st1 =
               st1\<lparr>outputChunks := outputChunks st1 @ [Data ?n p (ts * 1000)]\<rparr>"
    by blast
  have nofresh: "\<And>i t m. Control i name t m \<notin> set ?out"
    using inv fresh unfolding stream_inv_def by (metis option.distinct(1))
  then have notin: "name \<notin> set (control_names ?out)"
    using control_names_set by blast
  have n1: "1 \<le> ?n" and ids: "control_ids ?out = [1 ..< min ?n (2 ^ 32)]"
    and dist: "distinct (control_names ?out)"
    and recs: "\<And>n i t. (map_of (RECORDS st) n = Some (i, t)) = (\<exists>m. Control i n t m \<in> set ?out)"
    and db: "declared_before ?out" and df: "data_follows ?out"
    using inv unfolding stream_inv_def by blast+
  have min1: "min ?n (2 ^ 32) = ?n" and min2: "min (?n + 1) (2 ^ 32) = ?n + 1"
    using ok by (simp_all add: min_def)
  have "control_ids (?out @ [Control ?n name kind meta, Data ?n p (ts * 1000)])
          = control_ids ?out @ [?n]"
    by (simp add: control_ids_append)
  also have "\<dots> = [1 ..< ?n] @ [?n]" by (simp only: ids min1)
  also have "\<dots> = [1 ..< ?n + 1]" using n1 by simp
  also have "\<dots> = [1 ..< min (?n + 1) (2 ^ 32)]" by (simp only: min2)
  finally have ids': "control_ids (?out @ [Control ?n name kind meta, Data ?n p (ts * 1000)])
                = [1 ..< min (?n + 1) (2 ^ 32)]" .
  have dist': "distinct (control_names (?out @ [Control ?n name kind meta, Data ?n p (ts * 1000)]))"
    using dist notin by (simp add: control_names_append)
  have recs': "(map_of (AList.update name (?n, kind) (RECORDS st)) n' = Some (i, t)) =
      (\<exists>m. Control i n' t m \<in> set (?out @ [Control ?n name kind meta, Data ?n p (ts * 1000)]))"
    for n' i t
    using recs [of n' i t] nofresh by (auto simp: update_conv')
  have dbc: "declared_before (?out @ [Control ?n name kind meta])"
    by (rule declared_before_control [OF db])
  have "Control ?n name (payload_type p) meta \<in> set (?out @ [Control ?n name kind meta])"
    using p by simp
  from declared_before_data [OF dbc this]
  have db': "declared_before (?out @ [Control ?n name kind meta, Data ?n p (ts * 1000)])"
    by simp
  have df': "data_follows (?out @ [Control ?n name kind meta, Data ?n p (ts * 1000)])"
    by (rule data_follows_control_data [OF df])
  have "stream_inv (writeRecord name v ts st1)"
    unfolding wr stream_inv_def
    using ids' dist' recs' db' df' by (simp add: st1_def del: power_numeral min_Suc_numeral)
  with w show ?thesis by blast
qed

lemma stream_inv_exhausted:
  assumes "stream_inv st" and "\<not> NEXT_RECORD_ID st \<le> 0xFFFFFFFF"
  shows "stream_inv (st\<lparr>NEXT_RECORD_ID := NEXT_RECORD_ID st + 1\<rparr>)"
proof -
  from assms(2) have "(2::nat) ^ 32 \<le> NEXT_RECORD_ID st" by simp
  then have "min (NEXT_RECORD_ID st) (2 ^ 32) = min (NEXT_RECORD_ID st + 1) (2 ^ 32)"
    by (simp add: min_def)
  with assms(1) show ?thesis
    unfolding stream_inv_def by (simp del: power_numeral min_Suc_numeral)
qed

lemma writeControlRecord_Inl:
  "writeControlRecord i name kind meta st0 = Inl e \<Longrightarrow> \<not> i \<le> 0xFFFFFFFF"
  by (simp add: writeControlRecord_def split: if_splits)

text \<open>Both call sites declare the stream unless it is registered, then write.\<close>

lemma stream_inv_emit:
  assumes "stream_inv st" and "known_type kind"
    and "(if map_of (RECORDS st) name = None
          then (case writeControlRecord (NEXT_RECORD_ID st) name kind meta
                       (st\<lparr>NEXT_RECORD_ID := NEXT_RECORD_ID st + 1\<rparr>) of
                  Inl e \<Rightarrow> Inl e
                | Inr st1 \<Rightarrow> Inr (writeRecord name v ts st1))
          else Inr (writeRecord name v ts st)) = Inr st2"
  shows "stream_inv st2"
proof (cases "map_of (RECORDS st) name = None")
  case False
  with assms(3) have "st2 = writeRecord name v ts st" by simp
  with assms(1) show ?thesis by (simp add: stream_inv_write)
next
  case True
  show ?thesis
  proof (cases "NEXT_RECORD_ID st \<le> 0xFFFFFFFF")
    case ok: True
    from stream_inv_declare [OF assms(1) True ok assms(2), of meta v ts]
    obtain st1 where "writeControlRecord (NEXT_RECORD_ID st) name kind meta
        (st\<lparr>NEXT_RECORD_ID := NEXT_RECORD_ID st + 1\<rparr>) = Inr st1"
      and "stream_inv (writeRecord name v ts st1)" by blast
    with assms(3) True show ?thesis by simp
  next
    case False
    then have "writeControlRecord (NEXT_RECORD_ID st) name kind meta
        (st\<lparr>NEXT_RECORD_ID := NEXT_RECORD_ID st + 1\<rparr>) = Inl OutOfRange"
      by (simp add: writeControlRecord_def)
    with assms(3) True show ?thesis by simp
  qed
qed

lemma firmware_record_inv:
  assumes "stream_inv st" and "firmware_record devs payloadBytes pc st = Inr st1"
  shows "stream_inv st1"
proof -
  define messageId where "messageId = readUInt32LE payloadBytes pc"
  define canData where "canData = slice payloadBytes (pc + 4) (pc + 10)"
  note r = assms(2) [unfolded firmware_record_def Let_def, folded messageId_def canData_def]
  have kt: "known_type ''string''" by (simp add: known_type_def)
  show ?thesis
  proof (cases "map_of devs (shr_and messageId 24 0x1f)")
    case None
    with r assms(1) show ?thesis by simp
  next
    case (Some device)
    note dev = this
    show ?thesis
    proof (cases "firmwareFrameId device")
      case None
      with r dev assms(1) show ?thesis by simp
    next
      case (Some fid)
      note fid = this
      show ?thesis
      proof (cases "fid = 0")
        case True
        with r dev fid assms(1) show ?thesis by simp
      next
        case False
        note nz = this
        show ?thesis
        proof (cases "decode (canDecoder device) fid (canData @ alloc 8)")
          case (Inl e)
          with r dev fid nz show ?thesis by simp
        next
          case (Inr x)
          show ?thesis
          proof (cases x)
            case None
            with r dev fid nz Inr assms(1) show ?thesis by simp
          next
            case (Some decoded)
            from r dev fid nz Inr Some
            have "(if map_of (RECORDS st)
                        (prefix device @ dec_string (shr_and messageId 0 0x3f) @ ''/FIRMWARE'') = None
                   then (case writeControlRecord (NEXT_RECORD_ID st)
                               (prefix device @ dec_string (shr_and messageId 0 0x3f) @ ''/FIRMWARE'')
                               ''string'' []
                               (st\<lparr>NEXT_RECORD_ID := NEXT_RECORD_ID st + 1\<rparr>) of
                           Inl e \<Rightarrow> Inl e
                         | Inr st1 \<Rightarrow>
                             Inr (writeRecord
                                   (prefix device @ dec_string (shr_and messageId 0 0x3f) @ ''/FIRMWARE'')
                                   (VStr (js_string (parseFirmwareVersion device (boundSignals decoded) canData)))
                                   0 st1))
                   else Inr (writeRecord
                               (prefix device @ dec_string (shr_and messageId 0 0x3f) @ ''/FIRMWARE'')
                               (VStr (js_string (parseFirmwareVersion device (boundSignals decoded) canData)))
                               0 st)) = Inr st1"
              by (simp only: option.case sum.case if_False)
            from stream_inv_emit [OF assms(1) kt this] show ?thesis .
          qed
        qed
      qed
    qed
  qed
qed

lemma firmware_loop_inv:
  "stream_inv st \<Longrightarrow> firmware_loop devs payloadBytes pc st = Inr st1 \<Longrightarrow> stream_inv st1"
proof (induction devs payloadBytes pc st rule: firmware_loop.induct)
  case (1 devs payloadBytes pc st)
  show ?case
  proof (cases "pc + 10 \<le> length payloadBytes")
    case False
    with "1.prems" show ?thesis by (simp add: firmware_loop.simps)
  next
    case True
    with "1.prems"(2) obtain st' where r: "firmware_record devs payloadBytes pc st = Inr st'"
      and l: "firmware_loop devs payloadBytes (pc + 10) st' = Inr st1"
      by (subst (asm) firmware_loop.simps) (auto split: sum.splits)
    from firmware_record_inv [OF "1.prems"(1) r] have "stream_inv st'" .
    from "1.IH" [OF True r this l] show ?thesis .
  qed
qed

lemma periodic_signals_inv:
  "stream_inv st \<Longrightarrow>
     stream_inv (periodic_signals device messageId messageSpec msgTsMs bs st)"
proof (induction device messageId messageSpec msgTsMs bs st rule: periodic_signals.induct)
  case (1 device messageId messageSpec msgTsMs st)
  then show ?case by simp
next
  case (2 device messageId messageSpec msgTsMs signalName boundSignal rest st)
  show ?case
  proof (cases "map_of (signals messageSpec) signalName")
    case None
    with 2 show ?thesis by simp
  next
    case (Some signalSpec)
    define folder where "folder = (if endsWith signalName ''FAULT'' then ''/FAULT/''
        else if endsWith signalName ''WARNING'' then ''/WARNING/'' else ''/'')"
    define name where "name = prefix device @ dec_string (shr_and messageId 0 0x3f) @ folder
        @ signalName"
    define meta where "meta = (case description signalSpec of Some d \<Rightarrow> d
        | None \<Rightarrow> sig_unit signalSpec)"
    define st0 where "st0 = st\<lparr>NEXT_RECORD_ID := NEXT_RECORD_ID st + 1\<rparr>"
    have eq: "periodic_signals device messageId messageSpec msgTsMs
                ((signalName, boundSignal) # rest) st =
        (if map_of (RECORDS st) name = None
         then (case writeControlRecord (NEXT_RECORD_ID st) name
                      (getWpilogTypeFromSignal signalSpec) meta st0 of
                 Inl e \<Rightarrow> st0
               | Inr st1 \<Rightarrow>
                   periodic_signals device messageId messageSpec msgTsMs rest
                     (writeRecord name (bs_value boundSignal) msgTsMs st1))
         else periodic_signals device messageId messageSpec msgTsMs rest
                (writeRecord name (bs_value boundSignal) msgTsMs st))"
      by (simp only: periodic_signals.simps Some option.case Let_def folder_def name_def
          meta_def st0_def)
    show ?thesis
    proof (cases "map_of (RECORDS st) name = None")
      case False
      have "stream_inv (writeRecord name (bs_value boundSignal) msgTsMs st)"
        using "2.prems" by (rule stream_inv_write)
      from "2.IH"(3) [OF Some folder_def name_def False this]
      show ?thesis by (simp only: eq if_not_P [OF False])
    next
      case True
      show ?thesis
      proof (cases "NEXT_RECORD_ID st \<le> 0xFFFFFFFF")
        case ok: True
        from stream_inv_declare [OF "2.prems" True ok known_type_signal,
            of signalSpec meta "bs_value boundSignal" msgTsMs]
        obtain st1 where w: "writeControlRecord (NEXT_RECORD_ID st) name
            (getWpilogTypeFromSignal signalSpec) meta st0 = Inr st1"
          and i: "stream_inv (writeRecord name (bs_value boundSignal) msgTsMs st1)"
          unfolding st0_def by blast
        from "2.IH"(2) [OF Some folder_def name_def True refl meta_def st0_def w i]
        show ?thesis by (simp only: eq if_P [OF True] w sum.case)
      next
        case False
        then have w: "writeControlRecord (NEXT_RECORD_ID st) name
            (getWpilogTypeFromSignal signalSpec) meta st0 = Inl OutOfRange"
          by (simp add: writeControlRecord_def)
        from stream_inv_exhausted [OF "2.prems" False]
        show ?thesis by (simp only: eq if_P [OF True] st0_def w [unfolded st0_def] sum.case)
      qed
    qed
  qed
qed

lemma periodic_record_inv:
  "stream_inv st \<Longrightarrow> stream_inv (periodic_record devs payloadBytes pc st)"
  by (auto simp: periodic_record_def Let_def periodic_signals_inv
           split: option.splits sum.splits)

lemma periodic_loop_inv:
  "stream_inv st \<Longrightarrow> stream_inv (periodic_loop devs payloadBytes pc st)"
proof (induction devs payloadBytes pc st rule: periodic_loop.induct)
  case (1 devs payloadBytes pc st)
  show ?case
  proof (cases "pc + 16 \<le> length payloadBytes")
    case False
    with "1.prems" show ?thesis by (simp add: periodic_loop.simps)
  next
    case True
    from "1.IH" [OF True periodic_record_inv [OF "1.prems"]] True
    show ?thesis by (subst periodic_loop.simps) simp
  qed
qed

lemma dispatch_inv:
  assumes "stream_inv st" and "dispatch devs entryId payloadBytes st = Inr st1"
  shows "stream_inv st1"
proof -
  have i: "stream_inv (st\<lparr>recordsProcessed := True\<rparr>)"
    using assms(1) by simp
  consider "entryId = 1" | "entryId = 2" | "entryId \<noteq> 1" "entryId \<noteq> 2" by blast
  then show ?thesis
  proof cases
    case 1
    with assms(2) have "firmware_loop devs payloadBytes 0 (st\<lparr>recordsProcessed := True\<rparr>)
        = Inr st1" by (simp add: dispatch_def)
    from firmware_loop_inv [OF i this] show ?thesis .
  next
    case 2
    with assms(2) have "st1 = periodic_loop devs payloadBytes 0 (st\<lparr>recordsProcessed := True\<rparr>)"
      by (simp add: dispatch_def)
    with periodic_loop_inv [OF i] show ?thesis by simp
  next
    case 3
    with assms show ?thesis by (simp add: dispatch_def)
  qed
qed

lemma scan_step_inv:
  "stream_inv st \<Longrightarrow> scan_step devs data cursor st = Inr (Some (c, st1)) \<Longrightarrow> stream_inv st1"
  by (auto simp: scan_step_def split: sum.splits option.splits dest: dispatch_inv)

lemma scan_inv:
  "stream_inv st \<Longrightarrow> scan devs data cursor st = Inr st1 \<Longrightarrow> stream_inv st1"
proof (induction devs data cursor st rule: scan.induct)
  case (1 devs data cursor st)
  show ?case
  proof (cases "cursor < length data")
    case False
    with "1.prems" show ?thesis by (simp add: scan.simps)
  next
    case True
    show ?thesis
    proof (cases "scan_step devs data cursor st")
      case (Inl e)
      with True "1.prems"(2) show ?thesis by (simp add: scan.simps)
    next
      case (Inr x)
      show ?thesis
      proof (cases x)
        case None
        with Inr True "1.prems" show ?thesis by (simp add: scan.simps)
      next
        case (Some t)
        obtain c st' where t: "t = (c, st')" by (cases t)
        from Inr Some t have step: "scan_step devs data cursor st = Inr (Some (c, st'))" by simp
        from scan_step_inv [OF "1.prems"(1) step] have i: "stream_inv st'" .
        from "1.prems"(2) True step have "scan devs data c st' = Inr st1"
          by (subst (asm) scan.simps) simp
        from "1.IH" [OF True Inr Some t [symmetric] i this] show ?thesis .
      qed
    qed
  qed
qed

lemma stream_inv_init: "stream_inv init_state"
  by (simp add: stream_inv_def init_state_def declared_before_def data_follows_def)


definition stream_ids_ok :: "out_record list \<Rightarrow> bool" where
  "stream_ids_ok out =
     (control_ids out = [1 ..< Suc (length (control_ids out))] \<and>
      distinct (control_names out) \<and>
      declared_before out \<and>
      data_follows out)"

lemma stream_inv_ids_ok:
  assumes "stream_inv st"
  shows "stream_ids_ok (outputChunks st)"
proof -
  define k where "k = min (NEXT_RECORD_ID st) (2 ^ 32)"
  from assms have ids: "control_ids (outputChunks st) = [1 ..< k]" and "1 \<le> NEXT_RECORD_ID st"
    unfolding stream_inv_def k_def by blast+
  then have "1 \<le> k" by (simp add: k_def)
  then have "Suc (length [1 ..< k]) = k" by simp
  then have "control_ids (outputChunks st) = [1 ..< Suc (length (control_ids (outputChunks st)))]"
    by (simp only: ids)
  with assms show ?thesis
    unfolding stream_ids_ok_def stream_inv_def by blast
qed

lemma reach_inv: "reach devs data c st \<Longrightarrow> stream_inv st"
  by (induction rule: reach.induct) (auto intro: stream_inv_init scan_step_inv)

lemma writeRecord_declared:
  assumes "stream_inv st"
  shows "writeRecord name v ts st = st \<or>
     (\<exists>i p m. Control i name (payload_type p) m \<in> set (outputChunks st) \<and>
        writeRecord name v ts st =
          st\<lparr>outputChunks := outputChunks st @ [Data i p (ts * 1000)]\<rparr>)"
proof -
  from assms have recs: "\<And>n i t. (map_of (RECORDS st) n = Some (i, t)) =
      (\<exists>m. Control i n t m \<in> set (outputChunks st))"
    unfolding stream_inv_def by blast
  from writeRecord_cases [of name v ts st] show ?thesis
  proof
    assume "writeRecord name v ts st = st"
    then show ?thesis by simp
  next
    assume "\<exists>i t p. map_of (RECORDS st) name = Some (i, t) \<and> payload_type p = t \<and>
      writeRecord name v ts st = st\<lparr>outputChunks := outputChunks st @ [Data i p (ts * 1000)]\<rparr>"
    then obtain i p where r: "map_of (RECORDS st) name = Some (i, payload_type p)"
      and w: "writeRecord name v ts st =
        st\<lparr>outputChunks := outputChunks st @ [Data i p (ts * 1000)]\<rparr>"
      by blast
    from r recs obtain m where "Control i name (payload_type p) m \<in> set (outputChunks st)"
      by blast
    with w show ?thesis by blast
  qed
qed

text \<open>
  C1: at every entry boundary of a conversion run, and in the output of every run that
  succeeds: the control records carry the identifiers 1, 2, 3, ... in the order they were
  emitted, each directly followed by the first data record of its stream (identifiers are
  assigned in first-seen order, sequentially from 1); no name has two control records (a
  name is assigned an identifier at most once, and no identifier serves two names); every
  data record comes after a control record with its identifier and the kind of its
  payload; and a write for a name appends nothing, or one data record that carries the
  identifier and the kind of the control record emitted for that name.
\<close>

theorem C1_stream_identifiers:
  "(reach (devices sparkDbc servohubDbc encoderDbc) binary_data cursor st \<longrightarrow>
      stream_ids_ok (outputChunks st) \<and>
      (\<forall>name v ts.
         writeRecord name v ts st = st \<or>
         (\<exists>i p m. Control i name (payload_type p) m \<in> set (outputChunks st) \<and>
            writeRecord name v ts st =
              st\<lparr>outputChunks := outputChunks st @ [Data i p (ts * 1000)]\<rparr>))) \<and>
   (parseREVLOG sparkDbc servohubDbc encoderDbc binary_data = Inr out \<longrightarrow> stream_ids_ok out)"
proof (intro conjI impI allI)
  assume r: "reach (devices sparkDbc servohubDbc encoderDbc) binary_data cursor st"
  from reach_inv [OF r] show "stream_ids_ok (outputChunks st)" by (rule stream_inv_ids_ok)
next
  fix name v ts
  assume r: "reach (devices sparkDbc servohubDbc encoderDbc) binary_data cursor st"
  from reach_inv [OF r]
  show "writeRecord name v ts st = st \<or>
     (\<exists>i p m. Control i name (payload_type p) m \<in> set (outputChunks st) \<and>
        writeRecord name v ts st =
          st\<lparr>outputChunks := outputChunks st @ [Data i p (ts * 1000)]\<rparr>)"
    by (rule writeRecord_declared)
next
  assume p: "parseREVLOG sparkDbc servohubDbc encoderDbc binary_data = Inr out"
  then obtain st where s: "scan (devices sparkDbc servohubDbc encoderDbc) binary_data 0 init_state
      = Inr st" and o: "out = outputChunks st"
    by (auto simp: parseREVLOG_def split: if_splits sum.splits)
  from scan_inv [OF stream_inv_init s] have "stream_inv st" .
  with o show "stream_ids_ok out" by (simp add: stream_inv_ids_ok)
qed

text \<open>
  A run over the small servo hub catalog: a periodic block with one \<open>STATUS_0\<close> record
  of device 3, then a firmware block with one sub-record of the same device.
\<close>

definition status_state :: wstate where
  "status_state =
     \<lparr>RECORDS = [(''REV/ServoHub-3/FAULT/HARD_FAULT'', (1, ''boolean'')),
                 (''REV/ServoHub-3/COUNT'', (2, ''int64''))],
      NEXT_RECORD_ID = 3,
      outputChunks = [FileHeader ''WPILOG'' 1 0 [],
                      Control 1 ''REV/ServoHub-3/FAULT/HARD_FAULT'' ''boolean'' [],
                      Data 1 (PBoolean True) 7000,
                      Control 2 ''REV/ServoHub-3/COUNT'' ''int64'' ''Event count'',
                      Data 2 (PInt64 (- 2)) 7000],
      recordsProcessed = True\<rparr>"

definition version_state :: wstate where
  "version_state =
     \<lparr>RECORDS = [(''REV/ServoHub-3/FAULT/HARD_FAULT'', (1, ''boolean'')),
                 (''REV/ServoHub-3/COUNT'', (2, ''int64'')),
                 (''REV/ServoHub-3/FIRMWARE'', (3, ''string''))],
      NEXT_RECORD_ID = 4,
      outputChunks = [FileHeader ''WPILOG'' 1 0 [],
                      Control 1 ''REV/ServoHub-3/FAULT/HARD_FAULT'' ''boolean'' [],
                      Data 1 (PBoolean True) 7000,
                      Control 2 ''REV/ServoHub-3/COUNT'' ''int64'' ''Event count'',
                      Data 2 (PInt64 (- 2)) 7000,
                      Control 3 ''REV/ServoHub-3/FIRMWARE'' ''string'' [],
                      Data 3 (PString (VStr (js_string ''2.5.42''))) 0],
      recordsProcessed = True\<rparr>"

lemma status_periodic:
  "periodic_record (devices new_Dbc (load new_Dbc servo_lines) new_Dbc)
     [7, 0, 0, 0, 3, 24, 5, 140, 0, 0, 1, 254, 0, 0, 0, 0] 0
     (init_state\<lparr>recordsProcessed := True\<rparr>) = status_state"
  by (simp add: periodic_record_def devices_def createDeviceMap_def update_conv'
      readUInt32LE_def shr_and_def messages_values_def messages_get_def startsWith_def
      endsWith_def decode_eval servo_lines_def init_state_def status_state_def
      getWpilogTypeFromSignal_def writeControlRecord_def writeRecord_def try_int64_def
      dec_string.simps)

lemma version_firmware:
  "firmware_record (devices new_Dbc (load new_Dbc servo_lines) new_Dbc)
     [3, 38, 5, 140, 2, 5, 0, 42, 0, 0] 0 status_state = Inr version_state"
proof -
  obtain decoded where dec:
    "decode (Some (load new_Dbc servo_lines)) (msg_id servo_version_message)
       ([2, 5, 0, 42, 0, 0] @ alloc 8) = Inr (Some decoded)"
    using servo_version_decodes by (auto simp: servo_version_message_def)
  have id: "2349147651 = readUInt32LE [3, 38, 5, 140, 2, 5, 0, 42, 0, 0] 0"
    by (simp add: readUInt32LE_def slice_def)
  have ty: "shr_and 2349147651 24 0x1f = 12" by (simp add: shr_and_def)
  have cd: "slice [3, 38, 5, 140, 2, 5, 0, 42, 0, 0 :: byte] (0 + 4) (0 + 10) = [2, 5, 0, 42, 0, 0]"
    by (simp add: slice_def)
  have nz: "msg_id servo_version_message \<noteq> 0" by (simp add: servo_version_message_def)
  have nm: "''REV/ServoHub-3/FIRMWARE'' =
              ''REV/ServoHub-'' @ dec_string (shr_and 2349147651 0 0x3f) @ ''/FIRMWARE''"
    by (simp add: shr_and_def dec_string.simps)
  show ?thesis
    unfolding firmware_record_servo [OF id ty cd servo_version_get nz dec nm]
    by (simp add: status_state_def version_state_def writeControlRecord_def writeRecord_def
        update_conv')
qed

theorem C1_stream_identifiers_witness:
  "stream_ids_ok (outputChunks status_state) \<and>
   stream_ids_ok (outputChunks version_state) \<and>
   control_ids (outputChunks version_state) = [1, 2, 3] \<and>
   control_names (outputChunks version_state) =
     [''REV/ServoHub-3/FAULT/HARD_FAULT'', ''REV/ServoHub-3/COUNT'', ''REV/ServoHub-3/FIRMWARE'']"
proof -
  let ?devs = "devices new_Dbc (load new_Dbc servo_lines) new_Dbc"
  let ?data = "[0, 2, 16, 7, 0, 0, 0, 3, 24, 5, 140, 0, 0, 1, 254, 0, 0, 0, 0,
      0, 1, 10, 3, 38, 5, 140, 2, 5, 0, 42, 0, 0] :: byte list"
  have r1: "read_entry ?data 0 =
      Inr (Some (2, [7, 0, 0, 0, 3, 24, 5, 140, 0, 0, 1, 254, 0, 0, 0, 0], 19))"
    by code_simp
  have r2: "read_entry ?data 19 = Inr (Some (1, [3, 38, 5, 140, 2, 5, 0, 42, 0, 0], length ?data))"
    by code_simp
  have d1: "dispatch ?devs 2 [7, 0, 0, 0, 3, 24, 5, 140, 0, 0, 1, 254, 0, 0, 0, 0] init_state =
      Inr status_state"
    by (simp add: dispatch_def periodic_loop.simps status_periodic)
  have d2: "dispatch ?devs 1 [3, 38, 5, 140, 2, 5, 0, 42, 0, 0] status_state = Inr version_state"
  proof -
    have rp: "status_state\<lparr>recordsProcessed := True\<rparr> = status_state"
      by (simp add: status_state_def)
    show ?thesis
      by (simp add: dispatch_def rp firmware_loop_step [OF _ version_firmware] firmware_loop_end)
  qed
  have s1: "scan_step ?devs ?data 0 init_state = Inr (Some (19, status_state))"
    by (simp add: scan_step_def r1 d1)
  have reach1: "reach ?devs ?data 19 status_state"
    by (rule reach_next [OF reach_start _ s1]) simp
  have s: "scan ?devs ?data 0 init_state = Inr version_state"
    by (rule scan_two_blocks [OF _ r1 d1 _ r2 d2]) simp_all
  have p: "parseREVLOG new_Dbc (load new_Dbc servo_lines) new_Dbc ?data =
      Inr (outputChunks version_state)"
    by (simp add: parseREVLOG_def s version_state_def)
  have a: "stream_ids_ok (outputChunks status_state)"
    using C1_stream_identifiers [of new_Dbc "load new_Dbc servo_lines" new_Dbc ?data 19
        status_state] reach1
    by blast
  have b: "stream_ids_ok (outputChunks version_state)"
    using C1_stream_identifiers [of new_Dbc "load new_Dbc servo_lines" new_Dbc ?data _ _
        "outputChunks version_state"] p
    by blast
  from a b show ?thesis by (simp add: version_state_def)
qed

end
